theory Spec2Isabelle
  imports Main "HOL-Library.Word" "HOL-Library.Sublist"
begin

section \<open>JavaScript values used by \<open>src/static/app.js\<close>\<close>

text \<open>
  A JavaScript string is a sequence of 16-bit code units. \<open>js\<close> writes an ASCII literal
  of the source as such a sequence.
\<close>

type_synonym jsstring = "16 word list"

definition js :: "string \<Rightarrow> jsstring" where
  "js s = map of_char s"

datatype error = TypeError | URIError | SyntaxError | NetworkError

text \<open>\<open>xs[0]\<close>: the first element, \<open>undefined\<close> (here \<open>None\<close>) when there is none.\<close>

definition index0 :: "'a list \<Rightarrow> 'a option" where
  "index0 xs = (case xs of [] \<Rightarrow> None | x # _ \<Rightarrow> Some x)"

text \<open>
  \<open>String.prototype.trim\<close> removes leading and trailing white space and line
  terminators: TAB, LF, VT, FF, CR, SP, NBSP, U+1680, U+2000 to U+200A, U+2028, U+2029,
  U+202F, U+205F, U+3000 and U+FEFF.
\<close>

definition isWhiteSpace :: "16 word \<Rightarrow> bool" where
  "isWhiteSpace c =
     (c \<in> set [0x9, 0xA, 0xB, 0xC, 0xD, 0x20, 0xA0, 0x1680, 0x2028, 0x2029, 0x202F, 0x205F,
               0x3000, 0xFEFF]
      \<or> (0x2000 \<le> c \<and> c \<le> 0x200A))"

definition trim :: "jsstring \<Rightarrow> jsstring" where
  "trim s = rev (dropWhile isWhiteSpace (rev (dropWhile isWhiteSpace s)))"

text \<open>
  \<open>s.split(sep)\<close> for a separator string of one code unit: the substrings between the
  occurrences of the separator; \<open>cur\<close> is the substring read since the last occurrence.
  The result is never empty.
\<close>

fun splitOn :: "16 word \<Rightarrow> jsstring \<Rightarrow> jsstring \<Rightarrow> jsstring list" where
  "splitOn sep cur [] = [cur]"
| "splitOn sep cur (c # cs) =
     (if c = sep then cur # splitOn sep [] cs else splitOn sep (cur @ [c]) cs)"

definition splitString :: "16 word \<Rightarrow> jsstring \<Rightarrow> jsstring list" where
  "splitString sep s = splitOn sep [] s"

text \<open>The character class \<open>[._-]\<close> of the regular expression in \<open>getInitials\<close>.\<close>

definition isSeparator :: "16 word \<Rightarrow> bool" where
  "isSeparator c = (c = 0x2E \<or> c = 0x5F \<or> c = 0x2D)"

text \<open>
  \<open>handle.split(/[._-]+/)\<close>, following the loop of \<open>RegExp.prototype[Symbol.split]\<close>:
  the string is scanned from the left; where the expression matches (greedily, a whole
  run of separators, never the empty string) the substring read so far is pushed and the
  scan goes on behind the match; where it does not match the scan advances by one code
  unit; at the end the rest is pushed. On the empty string the expression does not
  match and the result is the one empty string.
\<close>

function splitRegExp :: "jsstring \<Rightarrow> jsstring \<Rightarrow> jsstring list" where
  "splitRegExp cur [] = [cur]"
| "splitRegExp cur (c # cs) =
     (if isSeparator c then cur # splitRegExp [] (dropWhile isSeparator cs)
      else splitRegExp (cur @ [c]) cs)"
  by pat_completeness auto
termination
  by (relation "measure (\<lambda>(cur, s). length s)")
     (auto simp: length_dropWhile_le less_Suc_eq_le)

text \<open>\<open>Boolean(s)\<close> for a string: every string but the empty one is truthy.\<close>

definition truthyString :: "jsstring \<Rightarrow> bool" where
  "truthyString s = (s \<noteq> [])"

text \<open>
  \<open>.filter(Boolean)\<close> on an array of strings and \<open>undefined\<close>: \<open>undefined\<close> and the
  empty string go.
\<close>

fun filterBoolean :: "jsstring option list \<Rightarrow> jsstring list" where
  "filterBoolean [] = []"
| "filterBoolean (None # xs) = filterBoolean xs"
| "filterBoolean (Some s # xs) = (if truthyString s then s # filterBoolean xs else filterBoolean xs)"

text \<open>\<open>part.trim()[0]\<close>: a string of one code unit, or \<open>undefined\<close>.\<close>

definition firstUnit :: "jsstring \<Rightarrow> jsstring option" where
  "firstUnit part = map_option (\<lambda>c. [c]) (index0 (trim part))"

text \<open>
  \<open>getInitials\<close> (app.js, lines 7 to 19). \<open>String.prototype.toUpperCase\<close> is a
  built-in whose table (the Unicode case mappings) is not part of the repository: it is
  the parameter \<open>toUpperCase\<close>. \<open>undefined.split\<close> would throw a TypeError.
\<close>

definition getInitials :: "(jsstring \<Rightarrow> jsstring) \<Rightarrow> jsstring \<Rightarrow> error + jsstring" where
  "getInitials toUpperCase participant =
     (case index0 (splitString 0x40 participant) of
        None \<Rightarrow> Inl TypeError
      | Some handle \<Rightarrow>
          let parts = filter truthyString (splitRegExp [] handle);
              letters = (if length parts \<noteq> 0 then parts else [handle]);
              initials = toUpperCase (concat (filterBoolean (map firstUnit (take 2 letters))))
          in Inr (if truthyString initials then initials else js ''?''))"

text \<open>
  The values of \<open>toUpperCase\<close> on code units up to U+00FF (Basic Latin and Latin-1
  Supplement): \<open>a\<close> to \<open>z\<close> and U+00E0 to U+00FE without U+00F7 go 32 down, U+00B5 goes to
  U+039C, U+00FF to U+0178, and U+00DF (sharp s) to the two code units \<open>SS\<close>. It is used
  to evaluate \<open>getInitials\<close> on strings of that range.
\<close>

definition upperUnit :: "16 word \<Rightarrow> jsstring" where
  "upperUnit c =
     (if 0x61 \<le> c \<and> c \<le> 0x7A then [c - 0x20]
      else if c = 0xB5 then [0x39C]
      else if c = 0xDF then [0x53, 0x53]
      else if 0xE0 \<le> c \<and> c \<le> 0xFE \<and> c \<noteq> 0xF7 then [c - 0x20]
      else if c = 0xFF then [0x178]
      else [c])"

definition toUpperCaseLatin1 :: "jsstring \<Rightarrow> jsstring" where
  "toUpperCaseLatin1 s = concat (map upperUnit s)"

section \<open>The label derivation as the specification words it\<close>

text \<open>
  Step 2: the pieces of the handle are its maximal runs of code units that are not
  separators; no piece is empty.
\<close>

function pieces :: "jsstring \<Rightarrow> jsstring list" where
  "pieces s =
     (case dropWhile isSeparator s of
        [] \<Rightarrow> []
      | c # cs \<Rightarrow> takeWhile (\<lambda>x. \<not> isSeparator x) (c # cs)
                 # pieces (dropWhile (\<lambda>x. \<not> isSeparator x) cs))"
  by pat_completeness auto
termination
proof (relation "measure length", simp)
  fix s c cs
  assume "dropWhile isSeparator s = c # cs"
  then have "length (c # cs) \<le> length s"
    by (metis length_dropWhile_le)
  moreover have "length (dropWhile (\<lambda>x. \<not> isSeparator x) cs) \<le> length cs"
    by (rule length_dropWhile_le)
  ultimately show "(dropWhile (\<lambda>x. \<not> isSeparator x) cs, s) \<in> measure length"
    by simp
qed

declare pieces.simps [simp del]

text \<open>Step 4, for one piece: its first code unit after trimming, nothing if it is empty then.\<close>

definition initialOf :: "jsstring \<Rightarrow> jsstring" where
  "initialOf piece = (case trim piece of [] \<Rightarrow> [] | c # _ \<Rightarrow> [c])"

text \<open>
  Steps 1 to 4: the code units the label is made of, the first code units, after
  trimming, of the first two pieces of the handle.
\<close>

definition initialUnits :: "jsstring \<Rightarrow> jsstring" where
  "initialUnits identifier =
     (let handle = takeWhile (\<lambda>c. c \<noteq> 0x40) identifier;
          ps = (if pieces handle = [] then [handle] else pieces handle)
      in concat (map initialOf (take 2 ps)))"

text \<open>The six steps of the label derivation.\<close>

definition labelSpec :: "(jsstring \<Rightarrow> jsstring) \<Rightarrow> jsstring \<Rightarrow> jsstring" where
  "labelSpec toUpperCase identifier =
     (let handle = takeWhile (\<lambda>c. c \<noteq> 0x40) identifier;
          ps = (if pieces handle = [] then [handle] else pieces handle);
          result = toUpperCase (concat (map initialOf (take 2 ps)))
      in if result = [] then js ''?'' else result)"


section \<open>Numbers\<close>

text \<open>
  The Number values of the language (IEEE doubles) and their operations are built-ins:
  the type \<open>'n\<close> stands for the numbers, and the operations the source uses on them are
  parameters: an array's \<open>length\<close> as a number, \<open>x - y\<close>, \<open>String(x)\<close> (also what \<open>+\<close>
  with a string and an assignment to \<open>textContent\<close> apply to a number), and \<open>Boolean(x)\<close>.
\<close>

record 'n numbers =
  lengthNumber :: "nat \<Rightarrow> 'n"
  subtract :: "'n \<Rightarrow> 'n \<Rightarrow> 'n"
  numberToString :: "'n \<Rightarrow> jsstring"
  truthyNumber :: "'n \<Rightarrow> bool"

section \<open>JSON values, as \<open>response.json()\<close> returns them\<close>

text \<open>
  A parsed JSON value, over the numbers \<open>'n\<close>; an object is the list of its properties,
  each key once.
\<close>

datatype 'n json =
    JNull
  | JBool bool
  | JNumber 'n
  | JString jsstring
  | JArray "'n json list"
  | JObject "(jsstring \<times> 'n json) list"

text \<open>
  \<open>Boolean(v)\<close>: \<open>null\<close>, \<open>false\<close> and the empty string are falsy, a number as the
  language has it, arrays and objects are truthy.
\<close>

fun truthy :: "'n numbers \<Rightarrow> 'n json \<Rightarrow> bool" where
  "truthy num JNull = False"
| "truthy num (JBool b) = b"
| "truthy num (JNumber n) = truthyNumber num n"
| "truthy num (JString s) = (s \<noteq> [])"
| "truthy num (JArray xs) = True"
| "truthy num (JObject kvs) = True"

text \<open>\<open>a || b\<close>, where \<open>a\<close> may be \<open>undefined\<close> (\<open>None\<close>) and \<open>b\<close> is a value.\<close>

definition orElse :: "'n numbers \<Rightarrow> 'n json option \<Rightarrow> 'n json \<Rightarrow> 'n json" where
  "orElse num a b = (case a of None \<Rightarrow> b | Some v \<Rightarrow> if truthy num v then v else b)"

text \<open>
  \<open>result.message\<close> and \<open>result.detail\<close>: reading a property of \<open>null\<close> throws a
  TypeError; an object gives the property or \<open>undefined\<close>; strings, numbers, booleans and
  arrays have no property of these names.
\<close>

fun getProp :: "'n json \<Rightarrow> jsstring \<Rightarrow> error + 'n json option" where
  "getProp JNull k = Inl TypeError"
| "getProp (JObject kvs) k = Inr (map_of kvs k)"
| "getProp (JBool b) k = Inr None"
| "getProp (JNumber n) k = Inr None"
| "getProp (JString s) k = Inr None"
| "getProp (JArray xs) k = Inr None"

text \<open>The decimal digits of a natural number, and the decimal numeral of an integer.\<close>

function digits :: "nat \<Rightarrow> jsstring" where
  "digits n = (if n < 10 then [0x30 + of_nat n] else digits (n div 10) @ [0x30 + of_nat (n mod 10)])"
  by pat_completeness auto
termination
  by (relation "measure id") auto

declare digits.simps [simp del]

definition decimal :: "int \<Rightarrow> jsstring" where
  "decimal n = (if n < 0 then 0x2D # digits (nat (- n)) else digits (nat n))"

text \<open>
  The numbers of the language on the safe integers, those of magnitude below \<open>2^53\<close>:
  there subtraction is exact as long as its result is a safe integer, \<open>String\<close> gives the
  decimal numeral, and only \<open>0\<close> is falsy. It is used to evaluate the page on such numbers.
\<close>

definition safeIntegers :: "int numbers" where
  "safeIntegers =
     \<lparr>lengthNumber = int, subtract = (\<lambda>x y. x - y), numberToString = decimal,
      truthyNumber = (\<lambda>x. x \<noteq> 0)\<rparr>"

fun joinWith :: "jsstring \<Rightarrow> jsstring list \<Rightarrow> jsstring" where
  "joinWith sep [] = []"
| "joinWith sep [x] = x"
| "joinWith sep (x # y # ys) = x @ sep @ joinWith sep (y # ys)"

text \<open>
  \<open>String(v)\<close>: a number as the language prints it; an array is its elements joined by
  commas, \<open>null\<close> elements as the empty string; an object is \<open>[object Object]\<close>.
\<close>

fun toString :: "'n numbers \<Rightarrow> 'n json \<Rightarrow> jsstring" where
  "toString num JNull = js ''null''"
| "toString num (JBool b) = (if b then js ''true'' else js ''false'')"
| "toString num (JNumber n) = numberToString num n"
| "toString num (JString s) = s"
| "toString num (JArray xs) =
     joinWith (js '','') (map (\<lambda>x. if x = JNull then [] else toString num x) xs)"
| "toString num (JObject kvs) = js ''[object Object]''"

text \<open>
  The value assigned to \<open>textContent\<close>, a nullable string attribute: \<open>undefined\<close> and
  \<open>null\<close> give the empty string, everything else its string.
\<close>

definition domString :: "'n numbers \<Rightarrow> 'n json option \<Rightarrow> jsstring" where
  "domString num v = (case v of None \<Rightarrow> [] | Some JNull \<Rightarrow> [] | Some x \<Rightarrow> toString num x)"

section \<open>\<open>encodeURIComponent\<close>\<close>

text \<open>
  The characters \<open>encodeURIComponent\<close> leaves as they are: letters, digits and
  \<open>- _ . ! ~ * ' ( )\<close>.
\<close>

definition isUnescaped :: "16 word \<Rightarrow> bool" where
  "isUnescaped c =
     ((0x41 \<le> c \<and> c \<le> 0x5A) \<or> (0x61 \<le> c \<and> c \<le> 0x7A) \<or> (0x30 \<le> c \<and> c \<le> 0x39)
      \<or> c \<in> set [0x2D, 0x5F, 0x2E, 0x21, 0x7E, 0x2A, 0x27, 0x28, 0x29])"

definition isHigh :: "16 word \<Rightarrow> bool" where
  "isHigh c = (0xD800 \<le> c \<and> c \<le> 0xDBFF)"

definition isLow :: "16 word \<Rightarrow> bool" where
  "isLow c = (0xDC00 \<le> c \<and> c \<le> 0xDFFF)"

text \<open>The code point of a surrogate pair.\<close>

definition codePoint :: "16 word \<Rightarrow> 16 word \<Rightarrow> nat" where
  "codePoint c d = 0x10000 + (unat c - 0xD800) * 0x400 + (unat d - 0xDC00)"

text \<open>The UTF-8 octets of a code point, as numbers below 256.\<close>

definition utf8 :: "nat \<Rightarrow> nat list" where
  "utf8 cp =
     (if cp < 0x80 then [cp]
      else if cp < 0x800 then [0xC0 + cp div 0x40, 0x80 + cp mod 0x40]
      else if cp < 0x10000 then
        [0xE0 + cp div 0x1000, 0x80 + cp div 0x40 mod 0x40, 0x80 + cp mod 0x40]
      else
        [0xF0 + cp div 0x40000, 0x80 + cp div 0x1000 mod 0x40, 0x80 + cp div 0x40 mod 0x40,
         0x80 + cp mod 0x40])"

definition hexDigits :: jsstring where
  "hexDigits = js ''0123456789ABCDEF''"

text \<open>An octet as \<open>%\<close> and two upper-case hexadecimal digits.\<close>

definition escapeOctet :: "nat \<Rightarrow> jsstring" where
  "escapeOctet b = [0x25, hexDigits ! (b div 16 mod 16), hexDigits ! (b mod 16)]"

definition escape :: "nat list \<Rightarrow> jsstring" where
  "escape bs = concat (map escapeOctet bs)"

definition prepend :: "jsstring \<Rightarrow> error + jsstring \<Rightarrow> error + jsstring" where
  "prepend xs r = (case r of Inl e \<Rightarrow> Inl e | Inr ys \<Rightarrow> Inr (xs @ ys))"

text \<open>
  \<open>encodeURIComponent\<close>: an unescaped character is copied; any other code point is
  written as the escapes of its UTF-8 octets; a surrogate without its partner throws a
  URIError.
\<close>

fun encodeURIComponent :: "jsstring \<Rightarrow> error + jsstring" where
  "encodeURIComponent [] = Inr []"
| "encodeURIComponent (c # cs) =
     (if isUnescaped c then prepend [c] (encodeURIComponent cs)
      else if isLow c then Inl URIError
      else if isHigh c then
        (case cs of
           [] \<Rightarrow> Inl URIError
         | d # ds \<Rightarrow>
             if isLow d then prepend (escape (utf8 (codePoint c d))) (encodeURIComponent ds)
             else Inl URIError)
      else prepend (escape (utf8 (unat c))) (encodeURIComponent cs))"

section \<open>The page\<close>

text \<open>
  A DOM node: an element with its tag, its class name, its other attributes and its
  children, or a text node.
\<close>

datatype node =
    Element string string "(string \<times> jsstring) list" "node list"
  | Text jsstring

text \<open>\<open>el.textContent = s\<close> gives the element one text node, none for the empty string.\<close>

definition textContent :: "jsstring \<Rightarrow> node list" where
  "textContent s = (if s = [] then [] else [Text s])"

text \<open>One activity of the listing, as the server sends it under the activity's name.\<close>

record 'n details =
  description :: jsstring
  schedule :: jsstring
  max_participants :: 'n
  participants :: "jsstring list"

text \<open>
  A response: \<open>response.ok\<close>, and the value \<open>response.json()\<close> resolves to, \<open>None\<close> when
  the body is no JSON text and \<open>response.json()\<close> rejects. An \<open>await fetch(...)\<close> gives
  a response or throws (no connection).
\<close>

record 'b response =
  ok :: bool
  body :: "'b option"

text \<open>A request of \<open>fetch\<close>: its \<open>method\<close> option (GET when there is none) and its URL.\<close>

record request =
  httpMethod :: string
  url :: jsstring

datatype callback = HideMessage

text \<open>
  What the handlers read and write: the children of \<open>#activities-list\<close> and of the
  \<open>#activity\<close> select, the text and the class tokens of \<open>#message\<close>, the pending
  \<open>setTimeout\<close> calls, the arguments of \<open>alert\<close> and of \<open>console.error\<close>, and the
  requests sent with \<open>fetch\<close>. A handler runs here from its start to its end; what other
  events do while it awaits is not modelled.
\<close>

record 'n page =
  activitiesList :: "node list"
  activitySelect :: "node list"
  messageText :: jsstring
  messageClass :: "string list"
  timeouts :: "(nat \<times> callback) list"
  alerts :: "'n json option list"
  consoleErrors :: "(jsstring \<times> error) list"
  requests :: "request list"

text \<open>\<open>classList.remove\<close> and \<open>classList.add\<close>.\<close>

definition classRemove :: "string \<Rightarrow> string list \<Rightarrow> string list" where
  "classRemove c cl = removeAll c cl"



subsection \<open>\<open>fetchActivities\<close>: rendering\<close>

text \<open>The list item of one participant (lines 81 to 103).\<close>

definition participantItem ::
  "(jsstring \<Rightarrow> jsstring) \<Rightarrow> jsstring \<Rightarrow> jsstring \<Rightarrow> error + node" where
  "participantItem toUpperCase name participant =
     (case getInitials toUpperCase participant of
        Inl e \<Rightarrow> Inl e
      | Inr initials \<Rightarrow>
          Inr (Element ''li'' ''participant-item'' []
            [Element ''span'' ''participant-avatar'' [] (textContent initials),
             Element ''span'' ''participant-name'' [] (textContent participant),
             Element ''button'' ''delete-btn''
               [(''type'', js ''button''), (''data-participant'', participant),
                (''data-activity'', name), (''title'', js ''Remove participant'')]
               (textContent [0xD7])]))"

text \<open>\<open>details.participants.forEach\<close>: the items in order, stopping where one throws.\<close>

fun participantItems ::
  "(jsstring \<Rightarrow> jsstring) \<Rightarrow> jsstring \<Rightarrow> jsstring list \<Rightarrow> error + node list" where
  "participantItems toUpperCase name [] = Inr []"
| "participantItems toUpperCase name (p # ps) =
     (case participantItem toUpperCase name p of
        Inl e \<Rightarrow> Inl e
      | Inr li \<Rightarrow>
          (case participantItems toUpperCase name ps of
             Inl e \<Rightarrow> Inl e
           | Inr lis \<Rightarrow> Inr (li # lis)))"

definition emptyLi :: node where
  "emptyLi = Element ''li'' ''empty-participants'' [] (textContent (js ''No participants yet''))"

text \<open>The children of the \<open>ul\<close> of participants (lines 79 to 110).\<close>

definition participantsListEl ::
  "(jsstring \<Rightarrow> jsstring) \<Rightarrow> jsstring \<Rightarrow> jsstring list \<Rightarrow> error + node list" where
  "participantsListEl toUpperCase name ps =
     (if length ps \<noteq> 0 then participantItems toUpperCase name ps else Inr [emptyLi])"

text \<open>Line 36: \<open>details.max_participants - details.participants.length\<close>.\<close>

definition spotsLeft :: "'n numbers \<Rightarrow> ('n, 'a) details_scheme \<Rightarrow> 'n" where
  "spotsLeft num d =
     subtract num (max_participants d) (lengthNumber num (length (participants d)))"

text \<open>The card of one activity (lines 33 to 113).\<close>

definition activityCard ::
  "(jsstring \<Rightarrow> jsstring) \<Rightarrow> 'n numbers \<Rightarrow> jsstring \<Rightarrow> ('n, 'a) details_scheme \<Rightarrow> error + node" where
  "activityCard toUpperCase num name d =
     (case participantsListEl toUpperCase name (participants d) of
        Inl e \<Rightarrow> Inl e
      | Inr lis \<Rightarrow>
          Inr (Element ''div'' ''activity-card'' []
            [Element ''h4'' [] [] (textContent name),
             Element ''p'' [] [] (textContent (description d)),
             Element ''p'' [] []
               [Element ''strong'' [] [] (textContent (js ''Schedule:'')),
                Text (js '' '' @ schedule d)],
             Element ''p'' [] []
               [Element ''strong'' [] [] (textContent (js ''Availability:'')),
                Text (js '' '' @ numberToString num (spotsLeft num d) @ js '' spots left'')],
             Element ''div'' ''participants'' []
               [Element ''p'' [] [] [Element ''strong'' [] [] (textContent (js ''Participants:''))],
                Element ''ul'' ''participants-list'' [] lis]]))"

definition activityOption :: "jsstring \<Rightarrow> node" where
  "activityOption name = Element ''option'' [] [(''value'', name)] (textContent name)"

text \<open>
  \<open>Object.entries(activities).forEach\<close>: each activity's card and option are appended
  at the end of its turn; a turn that throws appends nothing and ends the loop.
\<close>

fun forEachActivity ::
  "(jsstring \<Rightarrow> jsstring) \<Rightarrow> 'n numbers \<Rightarrow> (jsstring \<times> ('n, 'a) details_scheme) list \<Rightarrow> 'n page \<Rightarrow> error option \<times> 'n page"
  where
  "forEachActivity toUpperCase num [] s = (None, s)"
| "forEachActivity toUpperCase num ((name, d) # rest) s =
     (case activityCard toUpperCase num name d of
        Inl e \<Rightarrow> (Some e, s)
      | Inr el \<Rightarrow>
          forEachActivity toUpperCase num rest
            (s\<lparr>activitiesList := activitiesList s @ [el],
               activitySelect := activitySelect s @ [activityOption name]\<rparr>))"

definition listRequest :: request where
  "listRequest = \<lparr>httpMethod = ''GET'', url = js ''/activities''\<rparr>"

text \<open>
  The \<open>try\<close> block of \<open>fetchActivities\<close> (lines 24 to 163): the error thrown, if any,
  and the page as it is then. The listing is the list of the entries of the parsed
  object, in the order of \<open>Object.entries\<close>, each entry of the shape the server sends
  (\<open>details\<close>); a body that is no JSON makes \<open>response.json()\<close> reject. Every delete
  button of the new list gets the click handler \<open>deleteClick\<close> below, with its own two
  data attributes.
\<close>

definition fetchActivitiesTry ::
  "(jsstring \<Rightarrow> jsstring) \<Rightarrow> 'n numbers \<Rightarrow> error + (jsstring \<times> ('n, 'a) details_scheme) list response \<Rightarrow> 'n page
    \<Rightarrow> error option \<times> 'n page" where
  "fetchActivitiesTry toUpperCase num fetched s =
     (let s1 = s\<lparr>requests := requests s @ [listRequest]\<rparr> in
      case fetched of
        Inl e \<Rightarrow> (Some e, s1)
      | Inr response \<Rightarrow>
          (case body response of
             None \<Rightarrow> (Some SyntaxError, s1)
           | Some activities \<Rightarrow>
               forEachActivity toUpperCase num activities
                 (s1\<lparr>activitiesList := [],
                     activitySelect :=
                       [Element ''option'' [] [(''value'', [])]
                          [Text (js ''-- Select an activity --'')]]\<rparr>)))"

text \<open>\<open>fetchActivities\<close>, with its \<open>catch\<close> block (lines 164 to 167). It never throws.\<close>

definition fetchActivities ::
  "(jsstring \<Rightarrow> jsstring) \<Rightarrow> 'n numbers \<Rightarrow> error + (jsstring \<times> ('n, 'a) details_scheme) list response \<Rightarrow> 'n page
    \<Rightarrow> 'n page" where
  "fetchActivities toUpperCase num fetched s =
     (case fetchActivitiesTry toUpperCase num fetched s of
        (None, s1) \<Rightarrow> s1
      | (Some e, s1) \<Rightarrow>
          s1\<lparr>activitiesList :=
               [Element ''p'' [] []
                  [Text (js ''Failed to load activities. Please try again later.'')]],
             consoleErrors := consoleErrors s1 @ [(js ''Error fetching activities:'', e)]\<rparr>)"

subsection \<open>The two handlers\<close>

text \<open>The URLs of the two template literals (lines 132 and 179).\<close>

definition unregisterUrl :: "jsstring \<Rightarrow> jsstring \<Rightarrow> error + jsstring" where
  "unregisterUrl activity participant =
     (case encodeURIComponent activity of
        Inl e \<Rightarrow> Inl e
      | Inr a \<Rightarrow>
          (case encodeURIComponent participant of
             Inl e \<Rightarrow> Inl e
           | Inr p \<Rightarrow> Inr (js ''/activities/'' @ a @ js ''/unregister?email='' @ p)))"

definition signupUrl :: "jsstring \<Rightarrow> jsstring \<Rightarrow> error + jsstring" where
  "signupUrl activity email =
     (case encodeURIComponent activity of
        Inl e \<Rightarrow> Inl e
      | Inr a \<Rightarrow>
          (case encodeURIComponent email of
             Inl e \<Rightarrow> Inl e
           | Inr m \<Rightarrow> Inr (js ''/activities/'' @ a @ js ''/signup?email='' @ m)))"

text \<open>
  Lines 150 to 155 and 197 to 202: the message is shown, and a timer of 5000
  milliseconds is set to hide it.
\<close>

definition showThenHide :: "'n page \<Rightarrow> 'n page" where
  "showThenHide s =
     s\<lparr>messageClass := classRemove ''hidden'' (messageClass s),
       timeouts := timeouts s @ [(5000, HideMessage)]\<rparr>"

text \<open>
  The \<open>try\<close> block of the click handler of a delete button (lines 131 to 155), for the
  button's \<open>data-participant\<close> and \<open>data-activity\<close>, the outcome \<open>fetched\<close> of its
  request and the outcome \<open>listed\<close> of the request of \<open>fetchActivities\<close>, should it be
  sent.
\<close>

definition deleteClickTry ::
  "(jsstring \<Rightarrow> jsstring) \<Rightarrow> 'n numbers \<Rightarrow> jsstring \<Rightarrow> jsstring \<Rightarrow> error + 'n json response
    \<Rightarrow> error + (jsstring \<times> ('n, 'a) details_scheme) list response \<Rightarrow> 'n page \<Rightarrow> error option \<times> 'n page"
  where
  "deleteClickTry toUpperCase num participant activity fetched listed s =
     (case unregisterUrl activity participant of
        Inl e \<Rightarrow> (Some e, s)
      | Inr u \<Rightarrow>
          let s1 = s\<lparr>requests := requests s @ [\<lparr>httpMethod = ''POST'', url = u\<rparr>]\<rparr> in
          (case fetched of
             Inl e \<Rightarrow> (Some e, s1)
           | Inr response \<Rightarrow>
               (case body response of
                  None \<Rightarrow> (Some SyntaxError, s1)
                | Some result \<Rightarrow>
                    if ok response then
                      (case getProp result (js ''message'') of
                         Inl e \<Rightarrow> (Some e, s1)
                       | Inr message \<Rightarrow>
                           (None,
                            showThenHide
                              (fetchActivities toUpperCase num listed
                                 (s1\<lparr>alerts := alerts s1 @ [message],
                                     messageText := domString num message,
                                     messageClass := [''success'']\<rparr>))))
                    else
                      (case getProp result (js ''detail'') of
                         Inl e \<Rightarrow> (Some e, s1)
                       | Inr detail \<Rightarrow>
                           (None,
                            showThenHide
                              (s1\<lparr>messageText :=
                                    toString num (orElse num detail (JString (js ''An error occurred''))),
                                  messageClass := [''error'']\<rparr>))))))"

text \<open>The click handler, with its \<open>catch\<close> block (lines 156 to 161).\<close>

definition deleteClick ::
  "(jsstring \<Rightarrow> jsstring) \<Rightarrow> 'n numbers \<Rightarrow> jsstring \<Rightarrow> jsstring \<Rightarrow> error + 'n json response
    \<Rightarrow> error + (jsstring \<times> ('n, 'a) details_scheme) list response \<Rightarrow> 'n page \<Rightarrow> 'n page" where
  "deleteClick toUpperCase num participant activity fetched listed s =
     (case deleteClickTry toUpperCase num participant activity fetched listed s of
        (None, s1) \<Rightarrow> s1
      | (Some e, s1) \<Rightarrow>
          s1\<lparr>messageText := js ''Failed to remove participant. Please try again.'',
             messageClass := classRemove ''hidden'' [''error''],
             consoleErrors := consoleErrors s1 @ [(js ''Error removing participant:'', e)]\<rparr>)"

text \<open>
  The \<open>try\<close> block of the submit handler of the form (lines 178 to 202), for the values
  of the two form controls. \<open>signupForm.reset()\<close> changes form controls only, which are
  not part of the page here.
\<close>

definition signupSubmitTry ::
  "(jsstring \<Rightarrow> jsstring) \<Rightarrow> 'n numbers \<Rightarrow> jsstring \<Rightarrow> jsstring \<Rightarrow> error + 'n json response
    \<Rightarrow> error + (jsstring \<times> ('n, 'a) details_scheme) list response \<Rightarrow> 'n page \<Rightarrow> error option \<times> 'n page"
  where
  "signupSubmitTry toUpperCase num email activity fetched listed s =
     (case signupUrl activity email of
        Inl e \<Rightarrow> (Some e, s)
      | Inr u \<Rightarrow>
          let s1 = s\<lparr>requests := requests s @ [\<lparr>httpMethod = ''POST'', url = u\<rparr>]\<rparr> in
          (case fetched of
             Inl e \<Rightarrow> (Some e, s1)
           | Inr response \<Rightarrow>
               (case body response of
                  None \<Rightarrow> (Some SyntaxError, s1)
                | Some result \<Rightarrow>
                    if ok response then
                      (case getProp result (js ''message'') of
                         Inl e \<Rightarrow> (Some e, s1)
                       | Inr message \<Rightarrow>
                           (None,
                            showThenHide
                              (fetchActivities toUpperCase num listed
                                 (s1\<lparr>messageText := domString num message,
                                     messageClass := [''success'']\<rparr>))))
                    else
                      (case getProp result (js ''detail'') of
                         Inl e \<Rightarrow> (Some e, s1)
                       | Inr detail \<Rightarrow>
                           (None,
                            showThenHide
                              (s1\<lparr>messageText :=
                                    toString num (orElse num detail (JString (js ''An error occurred''))),
                                  messageClass := [''error'']\<rparr>))))))"

text \<open>The submit handler, with its \<open>catch\<close> block (lines 203 to 208).\<close>

definition signupSubmit ::
  "(jsstring \<Rightarrow> jsstring) \<Rightarrow> 'n numbers \<Rightarrow> jsstring \<Rightarrow> jsstring \<Rightarrow> error + 'n json response
    \<Rightarrow> error + (jsstring \<times> ('n, 'a) details_scheme) list response \<Rightarrow> 'n page \<Rightarrow> 'n page" where
  "signupSubmit toUpperCase num email activity fetched listed s =
     (case signupSubmitTry toUpperCase num email activity fetched listed s of
        (None, s1) \<Rightarrow> s1
      | (Some e, s1) \<Rightarrow>
          s1\<lparr>messageText := js ''Failed to sign up. Please try again.'',
             messageClass := classRemove ''hidden'' [''error''],
             consoleErrors := consoleErrors s1 @ [(js ''Error signing up:'', e)]\<rparr>)"

section \<open>Decoding a URL\<close>

text \<open>\<open>String.prototype.isWellFormed\<close>: no surrogate without its partner.\<close>

fun isWellFormed :: "jsstring \<Rightarrow> bool" where
  "isWellFormed [] = True"
| "isWellFormed [c] = (\<not> isHigh c \<and> \<not> isLow c)"
| "isWellFormed (c # d # cs) =
     (if isHigh c then isLow d \<and> isWellFormed cs else \<not> isLow c \<and> isWellFormed (d # cs))"

text \<open>The value of a hexadecimal digit.\<close>

definition hexValue :: "16 word \<Rightarrow> nat option" where
  "hexValue c =
     (if 0x30 \<le> c \<and> c \<le> 0x39 then Some (unat c - 0x30)
      else if 0x41 \<le> c \<and> c \<le> 0x46 then Some (unat c - 0x41 + 10)
      else if 0x61 \<le> c \<and> c \<le> 0x66 then Some (unat c - 0x61 + 10)
      else None)"

text \<open>
  The first pass of \<open>decodeURIComponent\<close>: every \<open>%\<close> must be followed by two
  hexadecimal digits and stands with them for one octet; every other code unit stands
  for itself.
\<close>

datatype item = Unit "16 word" | Octet nat

fun unescape :: "jsstring \<Rightarrow> item list option" where
  "unescape [] = Some []"
| "unescape (c # cs) =
     (if c = 0x25 then
        (case cs of
           h # l # rest \<Rightarrow>
             (case hexValue h of
                None \<Rightarrow> None
              | Some a \<Rightarrow>
                  (case hexValue l of
                     None \<Rightarrow> None
                   | Some b \<Rightarrow> map_option ((#) (Octet (16 * a + b))) (unescape rest)))
         | _ \<Rightarrow> None)
      else map_option ((#) (Unit c)) (unescape cs))"

text \<open>The number of leading one bits of an octet, which is the length of its sequence.\<close>

definition octetCount :: "nat \<Rightarrow> nat" where
  "octetCount b =
     (if b < 0x80 then 0 else if b < 0xC0 then 1 else if b < 0xE0 then 2
      else if b < 0xF0 then 3 else if b < 0xF8 then 4 else 5)"

definition continuation :: "nat \<Rightarrow> bool" where
  "continuation b = (0x80 \<le> b \<and> b < 0xC0)"

text \<open>
  The code point of a UTF-8 sequence of two to four octets; none for a sequence that is
  ill-formed, over-long, a surrogate or beyond U+10FFFF.
\<close>

fun decodeOctets :: "nat list \<Rightarrow> nat option" where
  "decodeOctets [a, b] =
     (if 0xC0 \<le> a \<and> a < 0xE0 \<and> continuation b then
        (let v = (a - 0xC0) * 0x40 + (b - 0x80) in if 0x80 \<le> v then Some v else None)
      else None)"
| "decodeOctets [a, b, c] =
     (if 0xE0 \<le> a \<and> a < 0xF0 \<and> continuation b \<and> continuation c then
        (let v = (a - 0xE0) * 0x1000 + (b - 0x80) * 0x40 + (c - 0x80)
         in if 0x800 \<le> v \<and> (v < 0xD800 \<or> 0xE000 \<le> v) then Some v else None)
      else None)"
| "decodeOctets [a, b, c, d] =
     (if 0xF0 \<le> a \<and> a < 0xF8 \<and> continuation b \<and> continuation c \<and> continuation d then
        (let v = (a - 0xF0) * 0x40000 + (b - 0x80) * 0x1000 + (c - 0x80) * 0x40 + (d - 0x80)
         in if 0x10000 \<le> v \<and> v < 0x110000 then Some v else None)
      else None)"
| "decodeOctets bs = None"

text \<open>The code units of a code point.\<close>

definition utf16 :: "nat \<Rightarrow> jsstring" where
  "utf16 v =
     (if v < 0x10000 then [of_nat v]
      else [of_nat (0xD800 + (v - 0x10000) div 0x400), of_nat (0xDC00 + (v - 0x10000) mod 0x400)])"

fun octetsOf :: "item list \<Rightarrow> nat list option" where
  "octetsOf [] = Some []"
| "octetsOf (Octet b # xs) = map_option ((#) b) (octetsOf xs)"
| "octetsOf (Unit c # xs) = None"

text \<open>
  The second pass: an octet below 128 is a code unit; a leading octet takes the octets
  of its sequence with it and gives the code units of their code point; anything else
  throws a URIError.
\<close>

function decodeItems :: "item list \<Rightarrow> error + jsstring" where
  "decodeItems [] = Inr []"
| "decodeItems (Unit c # xs) = prepend [c] (decodeItems xs)"
| "decodeItems (Octet b # xs) =
     (if octetCount b = 0 then prepend [of_nat b] (decodeItems xs)
      else if octetCount b = 1 \<or> 4 < octetCount b then Inl URIError
      else
        (case octetsOf (take (octetCount b - 1) xs) of
           None \<Rightarrow> Inl URIError
         | Some bs \<Rightarrow>
             (case decodeOctets (b # bs) of
                None \<Rightarrow> Inl URIError
              | Some v \<Rightarrow> prepend (utf16 v) (decodeItems (drop (octetCount b - 1) xs)))))"
  by pat_completeness auto
termination
  by (relation "measure length") auto

declare decodeItems.simps [simp del]

text \<open>\<open>decodeURIComponent\<close>, the inverse of \<open>encodeURIComponent\<close> in the language.\<close>

definition decodeURIComponent :: "jsstring \<Rightarrow> error + jsstring" where
  "decodeURIComponent s =
     (case unescape s of None \<Rightarrow> Inl URIError | Some items \<Rightarrow> decodeItems items)"

text \<open>
  What the URL parser behind \<open>fetch\<close> makes of the path of a URL reference (URL standard,
  path state, for \<open>http\<close> and \<open>https\<close>): the fragment starts at the first \<open>#\<close>, the query
  at the first \<open>?\<close> before it, and the path before them is cut into segments at \<open>/\<close> and
  \<open>\\<close>. A segment \<open>.\<close> is dropped, a segment \<open>..\<close> drops the segment before it, and either
  leaves an empty segment when it is the last; \<open>%2e\<close> counts as a dot. The parser
  rewrites some characters of a path (it escapes a space, it removes a tab) and reads
  a reference that starts with two slashes as a host: \<open>pathSegments\<close> answers for the
  references that start with one \<open>/\<close> and whose path has only characters the parser
  keeps as they are, and is \<open>None\<close> on every other.
\<close>

definition isSingleDot :: "jsstring \<Rightarrow> bool" where
  "isSingleDot seg = (seg \<in> set [js ''.'', js ''%2e'', js ''%2E''])"

definition isDoubleDot :: "jsstring \<Rightarrow> bool" where
  "isDoubleDot seg =
     (seg \<in> set [js ''..'', js ''.%2e'', js ''.%2E'', js ''%2e.'', js ''%2E.'',
                 js ''%2e%2e'', js ''%2e%2E'', js ''%2E%2e'', js ''%2E%2E''])"

fun splitWhere :: "(16 word \<Rightarrow> bool) \<Rightarrow> jsstring \<Rightarrow> jsstring \<Rightarrow> jsstring list" where
  "splitWhere isSep cur [] = [cur]"
| "splitWhere isSep cur (c # cs) =
     (if isSep c then cur # splitWhere isSep [] cs else splitWhere isSep (cur @ [c]) cs)"

fun pathState :: "jsstring list \<Rightarrow> jsstring list \<Rightarrow> jsstring list" where
  "pathState path [] = path"
| "pathState path (seg # rest) =
     (if isDoubleDot seg then
        pathState (butlast path @ (if rest = [] then [[]] else [])) rest
      else if isSingleDot seg then
        pathState (path @ (if rest = [] then [[]] else [])) rest
      else pathState (path @ [seg]) rest)"

definition isPathPlain :: "16 word \<Rightarrow> bool" where
  "isPathPlain c =
     (isUnescaped c \<or> c \<in> set [0x25, 0x24, 0x26, 0x2B, 0x2C, 0x3A, 0x3B, 0x3D, 0x40])"

definition pathSegments :: "jsstring \<Rightarrow> jsstring list option" where
  "pathSegments u =
     (case takeWhile (\<lambda>c. c \<noteq> 0x3F) (takeWhile (\<lambda>c. c \<noteq> 0x23) u) of
        [] \<Rightarrow> None
      | c # p \<Rightarrow>
          if c = 0x2F \<and> take 1 p \<noteq> [0x2F] \<and> take 1 p \<noteq> [0x5C]
             \<and> list_all (\<lambda>d. isPathPlain d \<or> d = 0x2F \<or> d = 0x5C) p
          then Some (pathState [] (splitWhere (\<lambda>d. d = 0x2F \<or> d = 0x5C) [] p))
          else None)"

text \<open>
  The query of a URL reference: it runs from the first \<open>?\<close> to the fragment, its
  parameters are cut at \<open>&\<close>, and a parameter at its first \<open>=\<close> into name and value.
\<close>

definition queryParams :: "jsstring \<Rightarrow> (jsstring \<times> jsstring) list" where
  "queryParams u =
     map (\<lambda>p. (takeWhile (\<lambda>c. c \<noteq> 0x3D) p, drop 1 (dropWhile (\<lambda>c. c \<noteq> 0x3D) p)))
       (splitString 0x26 (drop 1 (dropWhile (\<lambda>c. c \<noteq> 0x3F) (takeWhile (\<lambda>c. c \<noteq> 0x23) u))))"

section \<open>Reading the page\<close>

text \<open>
  The elements of a class in a subtree, in document order, as
  \<open>querySelectorAll\<close> on a class selector finds them (the root included).
\<close>

fun byClass :: "string \<Rightarrow> node \<Rightarrow> node list" where
  "byClass c (Text t) = []"
| "byClass c (Element tag cl attrs ch) =
     (if cl = c then [Element tag cl attrs ch] else []) @ concat (map (byClass c) ch)"

text \<open>The children of a node.\<close>

fun childrenOf :: "node \<Rightarrow> node list" where
  "childrenOf (Text t) = []"
| "childrenOf (Element tag cl attrs ch) = ch"

text \<open>The text behind the \<open>Availability:\<close> label of a card, its fourth child.\<close>

definition availabilityText :: "node \<Rightarrow> jsstring option" where
  "availabilityText el =
     (case el of
        Element tag cl attrs [title, descr, sched, Element t c a [strong, Text shown], parts] \<Rightarrow>
          Some shown
      | _ \<Rightarrow> None)"

text \<open>A page to evaluate the handlers on: nothing listed yet, the message hidden.\<close>

definition page0 :: "int page" where
  "page0 =
     \<lparr>activitiesList = [Element ''p'' [] [] [Text (js ''Loading activities...'')]],
      activitySelect = [],
      messageText = [],
      messageClass = [''hidden''],
      timeouts = [],
      alerts = [],
      consoleErrors = [],
      requests = []\<rparr>"

text \<open>Outcomes of requests to evaluate the handlers on.\<close>

definition sampleListing :: "(jsstring \<times> int details) list response" where
  "sampleListing =
     \<lparr>ok = True,
      body = Some
        [(js ''Chess Club'',
          \<lparr>description = js ''Learn strategies'', schedule = js ''Fridays'',
           max_participants = 12, participants = [js ''a@x.com'', js ''b@x.com'']\<rparr>),
         (js ''Art Club'',
          \<lparr>description = js ''Paint'', schedule = js ''Mondays'',
           max_participants = 5, participants = []\<rparr>)]\<rparr>"

definition signedUp :: "int json response" where
  "signedUp = \<lparr>ok = True, body = Some (JObject [(js ''message'', JString (js ''Signed up''))])\<rparr>"




section \<open>The handlers' outcomes as the specification words them\<close>




section \<open>Properties of the label derivation\<close>

lemma index0_splitOn: "index0 (splitOn sep cur s) = Some (cur @ takeWhile (\<lambda>c. c \<noteq> sep) s)"
  by (induction s arbitrary: cur) (auto simp: index0_def)

lemma truthyString_simps:
  "truthyString [] = False"
  "cur \<noteq> [] \<Longrightarrow> truthyString cur"
  by (simp_all add: truthyString_def)

lemma pieces_Nil: "pieces [] = []"
  by (simp add: pieces.simps)

lemma pieces_dropWhile: "pieces (dropWhile isSeparator s) = pieces s"
  by (subst (1 2) pieces.simps) simp

lemma pieces_sep_Cons: "isSeparator c \<Longrightarrow> pieces (c # cs) = pieces (dropWhile isSeparator cs)"
  by (subst (1 2) pieces.simps) simp

lemma pieces_run:
  assumes "cur \<noteq> []" and "list_all (\<lambda>c. \<not> isSeparator c) cur"
    and "rest = [] \<or> isSeparator (hd rest)"
  shows "pieces (cur @ rest) = cur # pieces rest"
proof -
  obtain x xs where cur: "cur = x # xs" using assms(1) by (cases cur) auto
  have nx: "\<not> isSeparator x" and nxs: "\<forall>c\<in>set xs. \<not> isSeparator c"
    using assms(2) by (auto simp: cur list_all_iff)
  have tw: "takeWhile (\<lambda>x. \<not> isSeparator x) (xs @ rest) = xs"
    using nxs assms(3) by (cases rest) (auto simp: takeWhile_append2)
  have dw: "dropWhile (\<lambda>x. \<not> isSeparator x) (xs @ rest) = rest"
    using nxs assms(3) by (cases rest) (auto simp: dropWhile_append2)
  show ?thesis
    by (subst pieces.simps) (simp add: cur nx tw dw)
qed

lemma splitRegExp_pieces:
  "list_all (\<lambda>c. \<not> isSeparator c) cur \<Longrightarrow>
   filter truthyString (splitRegExp cur s) = pieces (cur @ s)"
proof (induction cur s rule: splitRegExp.induct)
  case (1 cur)
  then show ?case
    using pieces_run [of cur "[]"] by (cases "cur = []") (auto simp: truthyString_simps pieces_Nil)
next
  case (2 cur c cs)
  show ?case
  proof (cases "isSeparator c")
    case True
    have rest: "filter truthyString (splitRegExp [] (dropWhile isSeparator cs)) = pieces (c # cs)"
      using 2(1) [OF True] True by (simp add: pieces_dropWhile pieces_sep_Cons)
    show ?thesis
    proof (cases "cur = []")
      case True
      then show ?thesis using \<open>isSeparator c\<close> rest by (simp add: truthyString_simps)
    next
      case False
      then show ?thesis
        using \<open>isSeparator c\<close> rest pieces_run [of cur "c # cs"] 2(3)
        by (simp add: truthyString_simps)
    qed
  next
    case False
    then show ?thesis using 2(2) 2(3) by simp
  qed
qed

lemma filterBoolean_firstUnit:
  "concat (filterBoolean (map firstUnit ps)) = concat (map initialOf ps)"
  by (induction ps)
     (auto simp: firstUnit_def initialOf_def index0_def truthyString_def split: list.splits)

lemma getInitials_eq: "getInitials toUpperCase s = Inr (labelSpec toUpperCase s)"
proof -
  have h: "index0 (splitString 0x40 s) = Some (takeWhile (\<lambda>c. c \<noteq> 0x40) s)"
    by (simp add: splitString_def index0_splitOn)
  have p: "filter truthyString (splitRegExp [] h) = pieces h" for h
    using splitRegExp_pieces [of "[]" h] by simp
  show ?thesis
    by (simp add: getInitials_def labelSpec_def h p Let_def filterBoolean_firstUnit truthyString_def)
qed

text \<open>
  Claim C1. For every participant identifier, and whatever the upper-casing of the
  language does, \<open>getInitials\<close> returns (it never throws) the label of the six-step
  derivation: the handle before the first \<open>@\<close>, its pieces between runs of \<open>.\<close>, \<open>_\<close>
  and \<open>-\<close> (the whole handle if there is none), the first code units of the first two
  pieces after trimming, upper-cased, and \<open>?\<close> if that is empty.
\<close>

theorem getInitials_refines_labelSpec:
  "getInitials toUpperCase s = Inr (labelSpec toUpperCase s)"
  by (rule getInitials_eq)

lemmas getInitials_eval =
  getInitials_def js_def splitString_def index0_def isSeparator_def truthyString_def
  firstUnit_def trim_def isWhiteSpace_def toUpperCaseLatin1_def upperUnit_def

text \<open>
  The labels of some identifiers: the first three examples of the specification, and
  identifiers that are empty, have an empty handle, or have no \<open>@\<close>.
\<close>

lemma getInitials_examples:
  "getInitials toUpperCaseLatin1 (js ''alice.smith@example.com'') = Inr (js ''AS'')"
  "getInitials toUpperCaseLatin1 (js ''bob@example.com'') = Inr (js ''B'')"
  "getInitials toUpperCaseLatin1 (js ''a..b@x.com'') = Inr (js ''AB'')"
  "getInitials toUpperCaseLatin1 [] = Inr (js ''?'')"
  "getInitials toUpperCaseLatin1 (js ''@x.com'') = Inr (js ''?'')"
  "getInitials toUpperCaseLatin1 (js ''mary_ann-lee'') = Inr (js ''MA'')"
  by (simp_all add: getInitials_eval)

text \<open>
  Claim C2, as the specification states it: \<open>getInitials("---@x.com")\<close> is \<open>"?"\<close>. It
  is not: no piece remains, the whole handle \<open>---\<close> is the one piece, and its first code
  unit \<open>-\<close> is no white space, so trimming keeps it.
\<close>

theorem getInitials_dashes_counterexample:
  "getInitials toUpperCaseLatin1 (js ''---@x.com'') \<noteq> Inr (js ''?'')"
  by (simp add: getInitials_eval)

text \<open>Claim C2, amended: \<open>getInitials("---@x.com")\<close> is the one-character label \<open>"-"\<close>.\<close>

theorem getInitials_dashes:
  "getInitials toUpperCaseLatin1 (js ''---@x.com'') = Inr (js ''-'')"
  by (simp add: getInitials_eval)

lemma upperUnit_id:
  "c < 0x61 \<or> (0x7A < c \<and> c < 0xB5) \<or> (0xB5 < c \<and> c < 0xDF) \<or> c = 0xF7 \<or> 0xFF < c
   \<Longrightarrow> upperUnit c = [c]"
  unfolding upperUnit_def by (auto simp: word_le_nat_alt word_less_nat_alt)

lemma minus32:
  fixes c :: "16 word"
  assumes "0x20 \<le> c"
  shows "unat (c - 0x20) = unat c - 32"
  using assms by (simp add: unat_sub)

lemma upperUnit_fixed: "concat (map upperUnit (upperUnit c)) = upperUnit c"
proof -
  consider (az) "0x61 \<le> c \<and> c \<le> 0x7A" | (mu) "c = 0xB5" | (ss) "c = 0xDF"
    | (lat) "0xE0 \<le> c \<and> c \<le> 0xFE \<and> c \<noteq> 0xF7" | (yy) "c = 0xFF"
    | (other) "\<not> (0x61 \<le> c \<and> c \<le> 0x7A) \<and> c \<noteq> 0xB5 \<and> c \<noteq> 0xDF
        \<and> \<not> (0xE0 \<le> c \<and> c \<le> 0xFE \<and> c \<noteq> 0xF7) \<and> c \<noteq> 0xFF"
    by blast
  then show ?thesis
  proof cases
    case az
    then have "0x20 \<le> c" by (simp add: word_le_nat_alt)
    then have "c - 0x20 < 0x61"
      using az by (simp add: word_le_nat_alt word_less_nat_alt minus32) arith
    then have "upperUnit (c - 0x20) = [c - 0x20]"
      by (simp add: upperUnit_id)
    then show ?thesis using az by (simp add: upperUnit_def)
  next
    case mu
    then show ?thesis by (simp add: upperUnit_def)
  next
    case ss
    then show ?thesis by (simp add: upperUnit_def)
  next
    case lat
    then have "0x20 \<le> c" by (simp add: word_le_nat_alt)
    then have "0xB5 < c - 0x20 \<and> c - 0x20 < 0xDF"
      using lat by (simp add: word_le_nat_alt word_less_nat_alt minus32) arith
    then have "upperUnit (c - 0x20) = [c - 0x20]"
      by (simp add: upperUnit_id)
    moreover have "upperUnit c = [c - 0x20]"
      using lat by (auto simp: upperUnit_def word_le_nat_alt)
    ultimately show ?thesis by simp
  next
    case yy
    then show ?thesis by (simp add: upperUnit_def)
  next
    case other
    then have "upperUnit c = [c]" by (simp add: upperUnit_def)
    then show ?thesis by simp
  qed
qed

lemma toUpperCaseLatin1_idem: "toUpperCaseLatin1 (toUpperCaseLatin1 x) = toUpperCaseLatin1 x"
  by (induction x) (simp_all add: toUpperCaseLatin1_def upperUnit_fixed)

lemma length_initialOf: "length (initialOf p) \<le> 1"
  by (simp add: initialOf_def split: list.splits)

lemma length_initials: "length (concat (map initialOf (take 2 ps))) \<le> 2"
proof (cases ps)
  case Nil
  then show ?thesis by simp
next
  case (Cons a qs)
  then show ?thesis
    using length_initialOf [of a] length_initialOf [of "hd qs"]
    by (cases qs) auto
qed

lemma subseq_initialOf: "subseq (initialOf p) p"
proof (cases "trim p")
  case Nil
  then show ?thesis by (simp add: initialOf_def)
next
  case (Cons c cs)
  then have "c \<in> set (trim p)" by simp
  then have "c \<in> set (dropWhile isWhiteSpace p)"
    unfolding trim_def using set_dropWhileD by fastforce
  then have "c \<in> set p"
    using set_dropWhileD by fastforce
  then show ?thesis
    using Cons by (simp add: initialOf_def subseq_singleton_left)
qed

lemma subseq_initials: "subseq (concat (map initialOf ps)) (concat ps)"
  by (induction ps) (simp_all add: list_emb_append_mono subseq_initialOf)

lemma subseq_concat_take: "subseq (concat (take n ps)) (concat ps)"
proof -
  have "concat ps = concat (take n ps) @ concat (drop n ps)"
    by (metis append_take_drop_id concat_append)
  then show ?thesis
    by (simp add: list_emb_prefix)
qed

lemma subseq_pieces: "subseq (concat (pieces s)) s"
proof (induction s rule: pieces.induct)
  case (1 s)
  show ?case
  proof (cases "dropWhile isSeparator s")
    case Nil
    have "pieces s = []"
      by (subst pieces.simps) (simp only: Nil list.case)
    then show ?thesis by simp
  next
    case (Cons c cs)
    have nc: "\<not> isSeparator c"
      using Cons hd_dropWhile [of isSeparator s] by fastforce
    have ih: "subseq (concat (pieces (dropWhile (\<lambda>x. \<not> isSeparator x) cs)))
        (dropWhile (\<lambda>x. \<not> isSeparator x) cs)"
      using "1.IH" [OF Cons] .
    have "c # cs = takeWhile (\<lambda>x. \<not> isSeparator x) (c # cs) @ dropWhile (\<lambda>x. \<not> isSeparator x) cs"
      using nc takeWhile_dropWhile_id [of "\<lambda>x. \<not> isSeparator x" "c # cs"] by simp
    then have "subseq (takeWhile (\<lambda>x. \<not> isSeparator x) (c # cs)
        @ concat (pieces (dropWhile (\<lambda>x. \<not> isSeparator x) cs))) (c # cs)"
      using list_emb_append_mono [OF subseq_order.order_refl ih] by metis
    then have "subseq (concat (pieces s)) (dropWhile isSeparator s)"
      using Cons by (subst pieces.simps) simp
    moreover have "s = takeWhile isSeparator s @ dropWhile isSeparator s"
      by simp
    ultimately show ?thesis
      by (metis list_emb_append2)
  qed
qed

lemma initialUnits_handle: "subseq (initialUnits s) (takeWhile (\<lambda>c. c \<noteq> 0x40) s)"
proof -
  let ?h = "takeWhile (\<lambda>c. c \<noteq> 0x40) s"
  let ?ps = "if pieces ?h = [] then [?h] else pieces ?h"
  have "subseq (concat ?ps) ?h"
    by (simp add: subseq_pieces)
  moreover have "subseq (concat (map initialOf (take 2 ?ps))) (concat (take 2 ?ps))"
    by (rule subseq_initials)
  moreover have "subseq (concat (take 2 ?ps)) (concat ?ps)"
    by (rule subseq_concat_take)
  ultimately have "subseq (concat (map initialOf (take 2 ?ps))) ?h"
    using subseq_order.order_trans by blast
  then show ?thesis
    by (simp add: initialUnits_def Let_def)
qed

lemma labelSpec_units:
  "labelSpec up s = (if up (initialUnits s) = [] then js ''?'' else up (initialUnits s))"
  by (simp add: labelSpec_def initialUnits_def Let_def)

lemma length_initialUnits: "length (initialUnits s) \<le> 2"
  by (simp add: initialUnits_def Let_def length_initials)


text \<open>
  Claim C9, amended. For every input string \<open>getInitials\<close> returns the upper-casing of
  the code units \<open>initialUnits\<close> picks, or \<open>?\<close> if that is empty. Those code units are at
  most two and are code units of the handle, in its order. The result is not empty and
  upper-casing leaves it as it is, upper-casing being idempotent and leaving \<open>?\<close> alone;
  its length is at most 2 wherever upper-casing does not lengthen the picked code units.
\<close>

theorem getInitials_shape:
  assumes idem: "\<forall>x. toUpperCase (toUpperCase x) = toUpperCase x"
    and q: "toUpperCase (js ''?'') = js ''?''"
  shows "getInitials toUpperCase s =
           Inr (if toUpperCase (initialUnits s) = [] then js ''?'' else toUpperCase (initialUnits s))
       \<and> length (initialUnits s) \<le> 2
       \<and> subseq (initialUnits s) (takeWhile (\<lambda>c. c \<noteq> 0x40) s)
       \<and> (\<exists>r. getInitials toUpperCase s = Inr r \<and> r \<noteq> [] \<and> toUpperCase r = r
            \<and> (length (toUpperCase (initialUnits s)) \<le> length (initialUnits s) \<longrightarrow> length r \<le> 2))"
proof -
  define u where "u = initialUnits s"
  define r where "r = (if toUpperCase u = [] then js ''?'' else toUpperCase u)"
  have g: "getInitials toUpperCase s = Inr r"
    by (simp add: getInitials_eq labelSpec_units r_def u_def)
  have lu: "length u \<le> 2"
    unfolding u_def by (rule length_initialUnits)
  have ne: "r \<noteq> []"
    by (simp add: r_def js_def)
  have fx: "toUpperCase r = r"
    using idem q by (simp add: r_def)
  have len: "length (toUpperCase u) \<le> length u \<longrightarrow> length r \<le> 2"
    using lu by (auto simp: r_def js_def)
  show ?thesis
    using g lu ne fx len initialUnits_handle [of s] unfolding r_def u_def by blast
qed

theorem getInitials_shape_witness:
  "initialUnits (js ''alice.smith@example.com'') = js ''as''
   \<and> getInitials toUpperCaseLatin1 (js ''alice.smith@example.com'') = Inr (js ''AS'')
   \<and> length (js ''as'') \<le> 2
   \<and> subseq (js ''as'') (js ''alice.smith'')
   \<and> toUpperCaseLatin1 (js ''AS'') = js ''AS''"
proof -
  have q: "toUpperCaseLatin1 (js ''?'') = js ''?''"
    by (simp add: toUpperCaseLatin1_def upperUnit_def js_def)
  have i: "\<forall>x. toUpperCaseLatin1 (toUpperCaseLatin1 x) = toUpperCaseLatin1 x"
    by (simp add: toUpperCaseLatin1_idem)
  have p: "pieces (js ''alice.smith'') = [js ''alice'', js ''smith'']"
    by (simp add: pieces.simps js_def isSeparator_def)
  have u: "initialUnits (js ''alice.smith@example.com'') = js ''as''"
    using p by (simp add: initialUnits_def initialOf_def trim_def isWhiteSpace_def js_def)
  have h: "takeWhile (\<lambda>c. c \<noteq> 0x40) (js ''alice.smith@example.com'') = js ''alice.smith''"
    by (simp add: js_def)
  have up: "toUpperCaseLatin1 (js ''as'') = js ''AS''"
    by (simp add: toUpperCaseLatin1_def upperUnit_def js_def)
  have ne: "js ''AS'' \<noteq> []"
    by (simp add: js_def)
  show ?thesis
    using getInitials_shape [OF i q, of "js ''alice.smith@example.com''"] u ne
    unfolding u h up by auto
qed

text \<open>
  Claim C9, as stated, bounds the length of the result by 2. Upper-casing comes after
  the two code units are chosen and U+00DF becomes \<open>SS\<close>: the identifier of the code
  units U+00DF, \<open>.\<close>, U+00DF, \<open>@\<close>, \<open>x\<close> has the label \<open>SSSS\<close>.
\<close>

theorem getInitials_length_counterexample:
  "getInitials toUpperCaseLatin1 [0xDF, 0x2E, 0xDF, 0x40, 0x78] = Inr (js ''SSSS'')
   \<and> \<not> length (js ''SSSS'') \<le> 2"
  by (simp add: getInitials_eval)

section \<open>Properties of the rendering\<close>

lemma participantItem_Inr:
  "participantItem up name p =
     Inr (Element ''li'' ''participant-item'' []
            [Element ''span'' ''participant-avatar'' [] (textContent (labelSpec up p)),
             Element ''span'' ''participant-name'' [] (textContent p),
             Element ''button'' ''delete-btn''
               [(''type'', js ''button''), (''data-participant'', p),
                (''data-activity'', name), (''title'', js ''Remove participant'')]
               (textContent [0xD7])])"
  by (simp add: participantItem_def getInitials_eq)

lemma participantItems_Inr:
  "participantItems up name ps = Inr (map (\<lambda>p. projr (participantItem up name p)) ps)"
  by (induction ps) (simp_all add: participantItem_Inr)

lemma participantsListEl_Inr:
  "participantsListEl up name ps =
     Inr (if ps = [] then [emptyLi] else map (\<lambda>p. projr (participantItem up name p)) ps)"
  by (simp add: participantsListEl_def participantItems_Inr)

lemma byClass_textContent: "concat (map (byClass c) (textContent t)) = []"
  by (simp add: textContent_def)

lemma byClass_item:
  "byClass c (projr (participantItem up name p)) =
     (if c = ''participant-item'' then [projr (participantItem up name p)] else [])
     @ (if c = ''participant-avatar''
        then [Element ''span'' ''participant-avatar'' [] (textContent (labelSpec up p))] else [])
     @ (if c = ''participant-name''
        then [Element ''span'' ''participant-name'' [] (textContent p)] else [])
     @ (if c = ''delete-btn''
        then [Element ''button'' ''delete-btn''
               [(''type'', js ''button''), (''data-participant'', p),
                (''data-activity'', name), (''title'', js ''Remove participant'')]
               (textContent [0xD7])] else [])"
  by (simp add: participantItem_Inr byClass_textContent)

lemma byClass_items_empty:
  "concat (map (\<lambda>p. byClass ''empty-participants'' (projr (participantItem up name p))) ps) = []"
  by (induction ps) (simp_all add: byClass_item)

lemma byClass_items_item:
  "concat (map (\<lambda>p. byClass ''participant-item'' (projr (participantItem up name p))) ps)
     = map (\<lambda>p. projr (participantItem up name p)) ps"
  by (induction ps) (simp_all add: byClass_item)

lemma byClass_emptyLi:
  "byClass c emptyLi = (if c = ''empty-participants'' then [emptyLi] else [])"
  by (simp add: emptyLi_def byClass_textContent)

lemma activityCard_Inr:
  "activityCard up num name d =
     Inr (Element ''div'' ''activity-card'' []
            [Element ''h4'' [] [] (textContent name),
             Element ''p'' [] [] (textContent (description d)),
             Element ''p'' [] []
               [Element ''strong'' [] [] (textContent (js ''Schedule:'')),
                Text (js '' '' @ schedule d)],
             Element ''p'' [] []
               [Element ''strong'' [] [] (textContent (js ''Availability:'')),
                Text (js '' '' @ numberToString num (spotsLeft num d) @ js '' spots left'')],
             Element ''div'' ''participants'' []
               [Element ''p'' [] [] [Element ''strong'' [] [] (textContent (js ''Participants:''))],
                Element ''ul'' ''participants-list'' []
                  (if participants d = [] then [emptyLi]
                   else map (\<lambda>p. projr (participantItem up name p)) (participants d))]])"
  by (simp add: activityCard_def participantsListEl_Inr)

lemma byClass_card_empty:
  "byClass ''empty-participants'' (projr (activityCard up num name d)) =
     (if participants d = [] then [emptyLi] else [])"
  by (simp add: activityCard_Inr byClass_textContent byClass_emptyLi byClass_items_empty o_def)

lemma byClass_card_item:
  "byClass ''participant-item'' (projr (activityCard up num name d)) =
     map (\<lambda>p. projr (participantItem up name p)) (participants d)"
  by (simp add: activityCard_Inr byClass_textContent byClass_emptyLi byClass_items_item o_def)

lemma availabilityText_card:
  "availabilityText (projr (activityCard up num name d)) =
     Some (js '' '' @ numberToString num (spotsLeft num d) @ js '' spots left'')"
  by (simp add: activityCard_Inr availabilityText_def)

lemma forEachActivity_ok:
  "forEachActivity up num acts s =
     (None, s\<lparr>activitiesList := activitiesList s @ map (\<lambda>(n, d). projr (activityCard up num n d)) acts,
              activitySelect := activitySelect s @ map (\<lambda>(n, d). activityOption n) acts\<rparr>)"
proof (induction acts arbitrary: s)
  case Nil
  then show ?case by simp
next
  case (Cons a acts)
  obtain n d where a: "a = (n, d)" by (cases a)
  have c: "activityCard up num n d = Inr (projr (activityCard up num n d))"
    by (simp add: activityCard_def participantsListEl_Inr)
  show ?case
    unfolding a forEachActivity.simps
    by (subst c) (simp add: Cons.IH)
qed

lemma fetchActivities_listed:
  "body r = Some acts \<Longrightarrow>
   fetchActivities up num (Inr r) s =
     s\<lparr>requests := requests s @ [listRequest],
       activitiesList := map (\<lambda>(n, d). projr (activityCard up num n d)) acts,
       activitySelect :=
         Element ''option'' [] [(''value'', [])] [Text (js ''-- Select an activity --'')]
         # map (\<lambda>(n, d). activityOption n) acts\<rparr>"
  by (simp add: fetchActivities_def fetchActivitiesTry_def forEachActivity_ok Let_def)

lemma fetchActivities_fields:
  "messageText (fetchActivities up num listed s) = messageText s"
  "messageClass (fetchActivities up num listed s) = messageClass s"
  "timeouts (fetchActivities up num listed s) = timeouts s"
  "alerts (fetchActivities up num listed s) = alerts s"
  "requests (fetchActivities up num listed s) = requests s @ [listRequest]"
  by (simp_all add: fetchActivities_def fetchActivitiesTry_def forEachActivity_ok Let_def
      split: sum.splits option.splits)


text \<open>
  Claim C3. For every activity of a listing that \<open>fetchActivities\<close> renders, the text
  behind \<open>Availability:\<close> is a space, the number \<open>max_participants\<close> minus the length
  of \<open>participants\<close> as the language subtracts and prints numbers, and \<open> spots left\<close>.
  The number is computed from those two fields of the fetched record at each rendering;
  whatever else the record holds (the record is extensible here) is not read.
\<close>

theorem spots_left_shown:
  assumes "body r = Some acts"
  shows "map availabilityText (activitiesList (fetchActivities up num (Inr r) s)) =
           map (\<lambda>(name, d). Some (js '' '' @
                  numberToString num
                    (subtract num (max_participants d) (lengthNumber num (length (participants d))))
                  @ js '' spots left'')) acts"
  using assms
  by (simp add: fetchActivities_listed availabilityText_card spotsLeft_def case_prod_unfold)

theorem spots_left_shown_witness:
  "body sampleListing = Some
     [(js ''Chess Club'',
       \<lparr>description = js ''Learn strategies'', schedule = js ''Fridays'',
        max_participants = 12, participants = [js ''a@x.com'', js ''b@x.com'']\<rparr>),
      (js ''Art Club'',
       \<lparr>description = js ''Paint'', schedule = js ''Mondays'',
        max_participants = 5, participants = []\<rparr>)]
   \<and> map availabilityText (activitiesList (fetchActivities toUpperCaseLatin1 safeIntegers (Inr sampleListing) page0))
       = [Some (js '' 10 spots left''), Some (js '' 5 spots left'')]"
proof -
  have b: "body sampleListing = Some
     [(js ''Chess Club'',
       \<lparr>description = js ''Learn strategies'', schedule = js ''Fridays'',
        max_participants = 12, participants = [js ''a@x.com'', js ''b@x.com'']\<rparr>),
      (js ''Art Club'',
       \<lparr>description = js ''Paint'', schedule = js ''Mondays'',
        max_participants = 5, participants = []\<rparr>)]"
    by (simp add: sampleListing_def)
  have n: "decimal 10 = js ''10''" "decimal 5 = js ''5''"
    by (simp_all add: decimal_def digits.simps js_def)
  show ?thesis
    using spots_left_shown [OF b, where up = toUpperCaseLatin1 and num = safeIntegers and s = page0] b n
    by (simp add: js_def safeIntegers_def)
qed

lemma byClass_card_list:
  "byClass ''participants-list'' (projr (activityCard up num name d)) =
     [Element ''ul'' ''participants-list'' []
        (if participants d = [] then [emptyLi]
         else map (\<lambda>p. projr (participantItem up name p)) (participants d))]"
proof -
  have i: "byClass ''participants-list'' (projr (participantItem up name p)) = []" for p
    by (simp add: byClass_item)
  show ?thesis
    by (simp add: activityCard_Inr byClass_textContent byClass_emptyLi i o_def)
qed

text \<open>
  Claim C7. For every activity of a rendered listing: when its participants list is
  empty, the children of the participants list in its card are exactly one placeholder,
  the list item of the class \<open>empty-participants\<close> with the text \<open>No participants yet\<close>,
  and the card holds no participant item; when it has participants, the children are
  exactly the participant items, one for each participant, and the card holds no
  placeholder.
\<close>

theorem placeholder_rendered:
  assumes "body r = Some acts"
  shows "list_all2
           (\<lambda>(name, d) el.
              concat (map childrenOf (byClass ''participants-list'' el)) =
                (if participants d = []
                 then [Element ''li'' ''empty-participants'' [] [Text (js ''No participants yet'')]]
                 else byClass ''participant-item'' el)
              \<and> length (byClass ''participant-item'' el) = length (participants d)
              \<and> byClass ''empty-participants'' el =
                (if participants d = []
                 then [Element ''li'' ''empty-participants'' [] [Text (js ''No participants yet'')]]
                 else []))
           acts (activitiesList (fetchActivities up num (Inr r) s))"
proof -
  have e: "emptyLi = Element ''li'' ''empty-participants'' [] [Text (js ''No participants yet'')]"
    by (simp add: emptyLi_def textContent_def js_def)
  show ?thesis
    using assms
    by (simp add: fetchActivities_listed list_all2_map2 list_all2_same byClass_card_empty
        byClass_card_item byClass_card_list case_prod_unfold e del: byClass.simps)
qed

theorem placeholder_rendered_witness:
  "body sampleListing = Some
     [(js ''Chess Club'',
       \<lparr>description = js ''Learn strategies'', schedule = js ''Fridays'',
        max_participants = 12, participants = [js ''a@x.com'', js ''b@x.com'']\<rparr>),
      (js ''Art Club'',
       \<lparr>description = js ''Paint'', schedule = js ''Mondays'',
        max_participants = 5, participants = []\<rparr>)]
   \<and> map (byClass ''empty-participants'')
         (activitiesList (fetchActivities toUpperCaseLatin1 safeIntegers (Inr sampleListing) page0))
       = [[], [Element ''li'' ''empty-participants'' [] [Text (js ''No participants yet'')]]]
   \<and> map (\<lambda>el. length (byClass ''participant-item'' el))
         (activitiesList (fetchActivities toUpperCaseLatin1 safeIntegers (Inr sampleListing) page0))
       = [2, 0]"
proof -
  have b: "body sampleListing = Some
     [(js ''Chess Club'',
       \<lparr>description = js ''Learn strategies'', schedule = js ''Fridays'',
        max_participants = 12, participants = [js ''a@x.com'', js ''b@x.com'']\<rparr>),
      (js ''Art Club'',
       \<lparr>description = js ''Paint'', schedule = js ''Mondays'',
        max_participants = 5, participants = []\<rparr>)]"
    by (simp add: sampleListing_def)
  show ?thesis
    using placeholder_rendered [OF b, where up = toUpperCaseLatin1 and num = safeIntegers and s = page0] b
    by (auto simp: list_all2_Cons1)
qed

section \<open>Properties of the two handlers\<close>

lemmas handler_defs =
  signupSubmit_def signupSubmitTry_def deleteClick_def deleteClickTry_def showThenHide_def
  classRemove_def Let_def

lemmas eval_defs =
  js_def signupUrl_def unregisterUrl_def isUnescaped_def isLow_def isHigh_def prepend_def
  escape_def escapeOctet_def utf8_def hexDigits_def page0_def


lemma chess_encoded:
  "encodeURIComponent (js ''Chess Club'') = Inr (js ''Chess%20Club'')"
  "encodeURIComponent (js ''a@x.com'') = Inr (js ''a%40x.com'')"
  by (simp_all add: eval_defs)













text \<open>
  Claim C5. The signup handler sends one request of its own, a POST to
  \<open>/activities/{name}/signup?email={id}\<close>, and the delete handler one, a POST to
  \<open>/activities/{name}/unregister?email={id}\<close>, with the activity name and the participant
  identifier in their \<open>encodeURIComponent\<close> form; the only other request a handler may
  send is the GET of \<open>fetchActivities\<close>, after it.
\<close>

theorem requests_issued:
  assumes "encodeURIComponent activity = Inr a"
    and "encodeURIComponent email = Inr m"
    and "encodeURIComponent participant = Inr p"
  shows "(\<exists>rest. requests (signupSubmit up num email activity fetched listed s) =
            requests s @ \<lparr>httpMethod = ''POST'', url = js ''/activities/'' @ a @ js ''/signup?email='' @ m\<rparr> # rest
            \<and> (rest = [] \<or> rest = [listRequest]))
       \<and> (\<exists>rest. requests (deleteClick up num participant activity fetched listed s) =
            requests s @ \<lparr>httpMethod = ''POST'', url = js ''/activities/'' @ a @ js ''/unregister?email='' @ p\<rparr> # rest
            \<and> (rest = [] \<or> rest = [listRequest]))"
  using assms
  by (simp add: handler_defs signupUrl_def unregisterUrl_def fetchActivities_fields
      split: sum.splits option.splits)

theorem requests_issued_witness:
  "encodeURIComponent (js ''Chess Club'') = Inr (js ''Chess%20Club'')
   \<and> encodeURIComponent (js ''a@x.com'') = Inr (js ''a%40x.com'')
   \<and> (\<exists>rest. requests (signupSubmit toUpperCaseLatin1 safeIntegers (js ''a@x.com'') (js ''Chess Club'')
                 (Inr signedUp) (Inr sampleListing) page0) =
            requests page0 @ \<lparr>httpMethod = ''POST'', url = js ''/activities/'' @ js ''Chess%20Club'' @ js ''/signup?email='' @ js ''a%40x.com''\<rparr> # rest
            \<and> (rest = [] \<or> rest = [listRequest]))
   \<and> (\<exists>rest. requests (deleteClick toUpperCaseLatin1 safeIntegers (js ''a@x.com'') (js ''Chess Club'')
                 (Inr signedUp) (Inr sampleListing) page0) =
            requests page0 @ \<lparr>httpMethod = ''POST'', url = js ''/activities/'' @ js ''Chess%20Club'' @ js ''/unregister?email='' @ js ''a%40x.com''\<rparr> # rest
            \<and> (rest = [] \<or> rest = [listRequest]))"
  using requests_issued [OF chess_encoded(1) chess_encoded(2) chess_encoded(2),
      where up = toUpperCaseLatin1 and num = safeIntegers and fetched = "Inr signedUp"
        and listed = "Inr sampleListing" and s = page0] chess_encoded
  by blast













section \<open>Properties of the URLs\<close>

lemma a2: "(cp::nat) div 0x40 * 0x40 + cp mod 0x40 = cp"
  by (rule div_mult_mod_eq)

lemma a3: "(cp::nat) div 0x1000 * 0x1000 + cp div 0x40 mod 0x40 * 0x40 + cp mod 0x40 = cp"
proof -
  have d: "cp div 0x1000 = cp div 0x40 div 0x40"
    by (simp only: div_mult2_eq [symmetric]) simp
  have "cp div 0x1000 * 0x1000 + cp div 0x40 mod 0x40 * 0x40
      = (cp div 0x40 div 0x40 * 0x40 + cp div 0x40 mod 0x40) * 0x40"
    unfolding d by (simp only: add_mult_distrib mult.assoc)
  also have "\<dots> = cp div 0x40 * 0x40"
    by (simp only: div_mult_mod_eq)
  finally show ?thesis
    by (simp only: div_mult_mod_eq)
qed

lemma a4: "(cp::nat) div 0x40000 * 0x40000 + cp div 0x1000 mod 0x40 * 0x1000 + cp div 0x40 mod 0x40 * 0x40 + cp mod 0x40 = cp"
proof -
  have d: "cp div 0x40000 = cp div 0x1000 div 0x40"
    by (simp only: div_mult2_eq [symmetric]) simp
  have "cp div 0x40000 * 0x40000 + cp div 0x1000 mod 0x40 * 0x1000
      = (cp div 0x1000 div 0x40 * 0x40 + cp div 0x1000 mod 0x40) * 0x1000"
    unfolding d by (simp only: add_mult_distrib mult.assoc)
  also have "\<dots> = cp div 0x1000 * 0x1000"
    by (simp only: div_mult_mod_eq)
  finally show ?thesis
    by (simp only: a3)
qed

lemma b3: "(cp::nat) < 0x10000 \<Longrightarrow> cp div 0x1000 < 16"
  by (simp add: less_mult_imp_div_less)

lemma b4: "(cp::nat) < 0x110000 \<Longrightarrow> cp div 0x40000 < 8"
  by (simp add: less_mult_imp_div_less)

lemma b2: "(cp::nat) < 0x800 \<Longrightarrow> cp div 0x40 < 32"
  by (simp add: less_mult_imp_div_less)

lemma div_mod_1024:
  fixes q r :: nat
  assumes "r < 0x400"
  shows "(q * 0x400 + r) div 0x400 = q" "(q * 0x400 + r) mod 0x400 = r"
  using assms by simp_all

lemma hexValue_hexDigits: "n < 16 \<Longrightarrow> hexValue (hexDigits ! n) = Some n"
proof -
  assume "n < 16"
  then consider "n = 0" | "n = 1" | "n = 2" | "n = 3" | "n = 4" | "n = 5" | "n = 6" | "n = 7"
    | "n = 8" | "n = 9" | "n = 10" | "n = 11" | "n = 12" | "n = 13" | "n = 14" | "n = 15"
    by atomize_elim arith
  then show ?thesis
    by cases (simp_all add: hexDigits_def js_def hexValue_def)
qed

lemma unescape_escapeOctet:
  assumes "b < 256"
  shows "unescape (escapeOctet b @ rest) = map_option ((#) (Octet b)) (unescape rest)"
proof -
  have h: "b div 16 mod 16 = b div 16" "b div 16 < 16" "b mod 16 < 16"
    using assms by auto
  have e: "16 * (b div 16) + b mod 16 = b"
    by simp
  show ?thesis
    using h by (simp add: escapeOctet_def hexValue_hexDigits e)
qed

lemma unescape_escape:
  assumes "list_all (\<lambda>b. b < 256) bs"
  shows "unescape (escape bs @ rest) = map_option ((@) (map Octet bs)) (unescape rest)"
  using assms
proof (induction bs)
  case Nil
  then show ?case by (simp add: escape_def option.map_ident)
next
  case (Cons b bs)
  then have "unescape (escapeOctet b @ escape bs @ rest) =
      map_option ((#) (Octet b)) (map_option ((@) (map Octet bs)) (unescape rest))"
    by (simp add: unescape_escapeOctet)
  then show ?case
    by (simp add: escape_def option.map_comp comp_def)
qed

lemma utf8_octets: "cp < 0x110000 \<Longrightarrow> list_all (\<lambda>b. b < 256) (utf8 cp)"
  by (auto simp: utf8_def)

lemma decodeOctets2:
  assumes "x < 32" "y < 64" "0x80 \<le> x * 0x40 + y"
  shows "decodeOctets [0xC0 + x, 0x80 + y] = Some (x * 0x40 + y)"
  using assms by (simp add: continuation_def)

lemma decodeOctets3:
  assumes "x < 16" "y < 64" "z < 64" "0x800 \<le> x * 0x1000 + y * 0x40 + z"
    "x * 0x1000 + y * 0x40 + z < 0xD800 \<or> 0xE000 \<le> x * 0x1000 + y * 0x40 + z"
  shows "decodeOctets [0xE0 + x, 0x80 + y, 0x80 + z] = Some (x * 0x1000 + y * 0x40 + z)"
  using assms by (simp add: continuation_def)

lemma decodeOctets4:
  assumes "x < 8" "y < 64" "z < 64" "w < 64" "0x10000 \<le> x * 0x40000 + y * 0x1000 + z * 0x40 + w"
    "x * 0x40000 + y * 0x1000 + z * 0x40 + w < 0x110000"
  shows "decodeOctets [0xF0 + x, 0x80 + y, 0x80 + z, 0x80 + w]
           = Some (x * 0x40000 + y * 0x1000 + z * 0x40 + w)"
  using assms by (simp add: continuation_def)


lemma take_drop_items:
  "take 2 (i # j # xs) = [i, j]" "drop 2 (i # j # xs) = xs"
  "take 3 (i # j # k # xs) = [i, j, k]" "drop 3 (i # j # k # xs) = xs"
  by (simp_all add: numeral_2_eq_2 numeral_3_eq_3)

lemma decodeItems_octets2:
  assumes "0x80 \<le> cp" "cp < 0x800"
  shows "decodeItems (Octet (0xC0 + cp div 0x40) # Octet (0x80 + cp mod 0x40) # xs)
           = prepend (utf16 cp) (decodeItems xs)"
proof -
  define x y where "x = cp div 0x40" and "y = cp mod 0x40"
  have x: "x < 32"
    unfolding x_def using assms(2) by (rule b2)
  have y: "y < 64"
    unfolding y_def by simp
  have e: "x * 0x40 + y = cp"
    unfolding x_def y_def by (rule a2)
  have c: "octetCount (0xC0 + x) = 2"
    using x by (simp add: octetCount_def)
  have o: "decodeOctets [0xC0 + x, 0x80 + y] = Some cp"
    using decodeOctets2 [OF x y] assms(1) unfolding e by simp
  have "decodeItems (Octet (0xC0 + x) # Octet (0x80 + y) # xs) = prepend (utf16 cp) (decodeItems xs)"
    by (subst decodeItems.simps) (simp add: c o del: decodeOctets.simps)
  then show ?thesis
    unfolding x_def y_def .
qed

lemma decodeItems_octets3:
  assumes "0x800 \<le> cp" "cp < 0x10000" "cp < 0xD800 \<or> 0xE000 \<le> cp"
  shows "decodeItems (Octet (0xE0 + cp div 0x1000) # Octet (0x80 + cp div 0x40 mod 0x40)
            # Octet (0x80 + cp mod 0x40) # xs)
           = prepend (utf16 cp) (decodeItems xs)"
proof -
  define x y z where "x = cp div 0x1000" and "y = cp div 0x40 mod 0x40" and "z = cp mod 0x40"
  have x: "x < 16"
    unfolding x_def using assms(2) by (rule b3)
  have y: "y < 64" and z: "z < 64"
    unfolding y_def z_def by simp_all
  have e: "x * 0x1000 + y * 0x40 + z = cp"
    unfolding x_def y_def z_def by (rule a3)
  have c: "octetCount (0xE0 + x) = 3"
    using x by (simp add: octetCount_def)
  have o: "decodeOctets [0xE0 + x, 0x80 + y, 0x80 + z] = Some cp"
    using decodeOctets3 [OF x y z] assms(1,3) unfolding e by simp
  have "decodeItems (Octet (0xE0 + x) # Octet (0x80 + y) # Octet (0x80 + z) # xs)
      = prepend (utf16 cp) (decodeItems xs)"
    by (subst decodeItems.simps) (simp add: c o take_drop_items del: decodeOctets.simps)
  then show ?thesis
    unfolding x_def y_def z_def .
qed

lemma decodeItems_octets4:
  assumes "0x10000 \<le> cp" "cp < 0x110000"
  shows "decodeItems (Octet (0xF0 + cp div 0x40000) # Octet (0x80 + cp div 0x1000 mod 0x40)
            # Octet (0x80 + cp div 0x40 mod 0x40) # Octet (0x80 + cp mod 0x40) # xs)
           = prepend (utf16 cp) (decodeItems xs)"
proof -
  define x y z w where "x = cp div 0x40000" and "y = cp div 0x1000 mod 0x40"
    and "z = cp div 0x40 mod 0x40" and "w = cp mod 0x40"
  have x: "x < 8"
    unfolding x_def using assms(2) by (rule b4)
  have y: "y < 64" and z: "z < 64" and w: "w < 64"
    unfolding y_def z_def w_def by simp_all
  have e: "x * 0x40000 + y * 0x1000 + z * 0x40 + w = cp"
    unfolding x_def y_def z_def w_def by (rule a4)
  have c: "octetCount (0xF0 + x) = 4"
    using x by (simp add: octetCount_def)
  have o: "decodeOctets [0xF0 + x, 0x80 + y, 0x80 + z, 0x80 + w] = Some cp"
    using decodeOctets4 [OF x y z w] assms unfolding e by simp
  have "decodeItems (Octet (0xF0 + x) # Octet (0x80 + y) # Octet (0x80 + z) # Octet (0x80 + w) # xs)
      = prepend (utf16 cp) (decodeItems xs)"
    by (subst decodeItems.simps) (simp add: c o take_drop_items del: decodeOctets.simps)
  then show ?thesis
    unfolding x_def y_def z_def w_def .
qed

lemma decodeItems_utf8:
  assumes "cp < 0x110000" "cp < 0xD800 \<or> 0xE000 \<le> cp"
  shows "decodeItems (map Octet (utf8 cp) @ xs) = prepend (utf16 cp) (decodeItems xs)"
proof -
  consider "cp < 0x80" | "0x80 \<le> cp \<and> cp < 0x800" | "0x800 \<le> cp \<and> cp < 0x10000"
    | "0x10000 \<le> cp"
    by linarith
  then show ?thesis
  proof cases
    case 1
    then show ?thesis
      by (simp add: utf8_def decodeItems.simps octetCount_def utf16_def)
  next
    case 2
    then show ?thesis
      using decodeItems_octets2 [of cp xs] by (simp add: utf8_def)
  next
    case 3
    then show ?thesis
      using decodeItems_octets3 [of cp xs] assms(2) by (simp add: utf8_def)
  next
    case 4
    then show ?thesis
      using decodeItems_octets4 [of cp xs] assms(1) by (simp add: utf8_def)
  qed
qed

lemma utf16_unat: "utf16 (unat (c :: 16 word)) = [c]"
proof -
  have "unat c < 2 ^ LENGTH(16)"
    by (rule unsigned_less)
  then have "unat c < 0x10000"
    by simp
  then show ?thesis
    by (simp add: utf16_def)
qed

lemma codePoint_bounds:
  assumes "isHigh c" "isLow d"
  shows "0x10000 \<le> codePoint c d" "codePoint c d < 0x110000"
    "(codePoint c d - 0x10000) div 0x400 = unat c - 0xD800"
    "(codePoint c d - 0x10000) mod 0x400 = unat d - 0xDC00"
proof -
  have c: "0xD800 \<le> unat c" "unat c \<le> 0xDBFF"
    using assms(1) by (simp_all add: isHigh_def word_le_nat_alt)
  have d: "0xDC00 \<le> unat d" "unat d \<le> 0xDFFF"
    using assms(2) by (simp_all add: isLow_def word_le_nat_alt)
  define q r where "q = unat c - 0xD800" and "r = unat d - 0xDC00"
  have q: "q \<le> 0x3FF" and r: "r < 0x400"
    unfolding q_def r_def using c d by simp_all
  have e: "codePoint c d = 0x10000 + (q * 0x400 + r)"
    by (simp add: codePoint_def q_def r_def)
  show "0x10000 \<le> codePoint c d"
    unfolding e by simp
  have "q * 0x400 \<le> 0x3FF * 0x400"
    using q by (rule mult_le_mono1)
  then show "codePoint c d < 0x110000"
    unfolding e using r by simp
  show "(codePoint c d - 0x10000) div 0x400 = unat c - 0xD800"
    unfolding e q_def [symmetric] using div_mod_1024(1) [OF r, of q] by simp
  show "(codePoint c d - 0x10000) mod 0x400 = unat d - 0xDC00"
    unfolding e r_def [symmetric] using div_mod_1024(2) [OF r, of q] by simp
qed

lemma utf16_codePoint:
  assumes "isHigh c" "isLow d"
  shows "utf16 (codePoint c d) = [c, d]"
proof -
  have c: "0xD800 \<le> unat c"
    using assms(1) by (simp add: isHigh_def word_le_nat_alt)
  have d: "0xDC00 \<le> unat d"
    using assms(2) by (simp add: isLow_def word_le_nat_alt)
  have n: "\<not> codePoint c d < 0x10000"
    using codePoint_bounds(1) [OF assms] by simp
  have "0xD800 + (unat c - 0xD800) = unat c"
    using c by simp
  then have hc: "(of_nat (0xD800 + (unat c - 0xD800)) :: 16 word) = c"
    by (simp only: of_nat_unat ucast_id)
  have "0xDC00 + (unat d - 0xDC00) = unat d"
    using d by simp
  then have hd: "(of_nat (0xDC00 + (unat d - 0xDC00)) :: 16 word) = d"
    by (simp only: of_nat_unat ucast_id)
  show ?thesis
    unfolding utf16_def codePoint_bounds(3,4) [OF assms] using n hc hd by simp
qed

lemma prepend_Inr: "prepend xs r = Inr e \<longleftrightarrow> (\<exists>e'. r = Inr e' \<and> e = xs @ e')"
  by (cases r) (auto simp: prepend_def)

lemma surrogate_not_unescaped:
  "isHigh c \<Longrightarrow> \<not> isUnescaped c" "isLow c \<Longrightarrow> \<not> isUnescaped c" "isHigh c \<Longrightarrow> \<not> isLow c"
  by (auto simp: isHigh_def isLow_def isUnescaped_def word_le_nat_alt)

lemma unescaped_not_percent: "isUnescaped c \<Longrightarrow> c \<noteq> 0x25"
  by (auto simp: isUnescaped_def)

lemma not_surrogate:
  assumes "\<not> isHigh c" "\<not> isLow c"
  shows "unat c < 0x110000" "unat c < 0xD800 \<or> 0xE000 \<le> unat c"
proof -
  have "unat c < 2 ^ LENGTH(16)"
    by (rule unsigned_less)
  then have l: "unat c < 0x10000"
    by simp
  then show "unat c < 0x110000"
    by simp
  show "unat c < 0xD800 \<or> 0xE000 \<le> unat c"
    using assms l by (auto simp: isHigh_def isLow_def word_le_nat_alt)
qed

lemma decoded_step:
  assumes "unescape e' = Some items" "decodeItems items = Inr rest"
    and "cp < 0x110000" "cp < 0xD800 \<or> 0xE000 \<le> cp"
  shows "\<exists>its. unescape (escape (utf8 cp) @ e') = Some its
           \<and> decodeItems its = Inr (utf16 cp @ rest)"
proof -
  have "unescape (escape (utf8 cp) @ e') = Some (map Octet (utf8 cp) @ items)"
    using unescape_escape [OF utf8_octets [OF assms(3)], of e'] assms(1) by simp
  moreover have "decodeItems (map Octet (utf8 cp) @ items) = Inr (utf16 cp @ rest)"
    using decodeItems_utf8 [OF assms(3,4), of items] assms(2) by (simp add: prepend_def)
  ultimately show ?thesis by blast
qed

lemma encode_decode_items:
  "encodeURIComponent s = Inr e \<Longrightarrow>
   \<exists>items. unescape e = Some items \<and> decodeItems items = Inr s"
proof (induction s arbitrary: e rule: encodeURIComponent.induct)
  case 1
  then show ?case by (simp add: decodeItems.simps)
next
  case (2 c cs)
  show ?case
  proof (cases "isUnescaped c")
    case True
    then obtain e' where e': "encodeURIComponent cs = Inr e'" "e = c # e'"
      using "2.prems" by (auto simp: prepend_Inr)
    obtain items where "unescape e' = Some items" "decodeItems items = Inr cs"
      using "2.IH"(1) [OF True e'(1)] by blast
    then have "unescape e = Some (Unit c # items)" "decodeItems (Unit c # items) = Inr (c # cs)"
      using unescaped_not_percent [OF True] e'(2) by (simp_all add: decodeItems.simps prepend_def)
    then show ?thesis by blast
  next
    case False
    then have nl: "\<not> isLow c"
      using "2.prems" by (auto split: if_splits)
    show ?thesis
    proof (cases "isHigh c")
      case True
      then obtain d ds where cs: "cs = d # ds" and d: "isLow d"
        using "2.prems" False nl by (auto split: if_splits list.splits)
      obtain e' where e': "encodeURIComponent ds = Inr e'" "e = escape (utf8 (codePoint c d)) @ e'"
        using "2.prems" False nl True cs d by (auto simp: prepend_Inr)
      obtain items where i: "unescape e' = Some items" "decodeItems items = Inr ds"
        using "2.IH"(2) [OF False nl True cs d e'(1)] by blast
      have b: "codePoint c d < 0x110000" "codePoint c d < 0xD800 \<or> 0xE000 \<le> codePoint c d"
        using codePoint_bounds(1,2) [OF True d] by simp_all
      show ?thesis
        using decoded_step [OF i b] by (simp add: e'(2) cs utf16_codePoint [OF True d])
    next
      case nh: False
      obtain e' where e': "encodeURIComponent cs = Inr e'" "e = escape (utf8 (unat c)) @ e'"
        using "2.prems" False nl nh by (auto simp: prepend_Inr)
      obtain items where i: "unescape e' = Some items" "decodeItems items = Inr cs"
        using "2.IH"(3) [OF False nl nh e'(1)] by blast
      show ?thesis
        using decoded_step [OF i not_surrogate [OF nh nl]] by (simp add: e'(2) utf16_unat)
    qed
  qed
qed

lemma decode_encode:
  "encodeURIComponent s = Inr e \<Longrightarrow> decodeURIComponent e = Inr s"
  using encode_decode_items [of s e] by (auto simp: decodeURIComponent_def)

lemma encode_error: "encodeURIComponent s = Inl x \<Longrightarrow> x = URIError"
  by (induction s arbitrary: x rule: encodeURIComponent.induct)
     (auto simp: prepend_def split: if_splits list.splits sum.splits)

lemma encode_wellFormed:
  "isWellFormed s \<longleftrightarrow> (\<exists>e. encodeURIComponent s = Inr e)"
proof (induction s rule: isWellFormed.induct)
  case 1
  then show ?case by simp
next
  case (2 c)
  then show ?case
    using surrogate_not_unescaped [of c] by (auto simp: prepend_def)
next
  case (3 c d cs)
  show ?case
  proof (cases "isHigh c")
    case True
    then show ?thesis
      using 3(1) surrogate_not_unescaped [of c] by (auto simp: prepend_Inr)
  next
    case False
    then show ?thesis
      using 3(2) surrogate_not_unescaped(2) [of c]
      by (cases "isLow c") (auto simp: prepend_Inr simp del: encodeURIComponent.simps
          simp add: encodeURIComponent.simps(2) [of c "d # cs"])
  qed
qed

lemma hexDigit_unescaped: "n < 16 \<Longrightarrow> isUnescaped (hexDigits ! n)"
proof -
  assume "n < 16"
  then consider "n = 0" | "n = 1" | "n = 2" | "n = 3" | "n = 4" | "n = 5" | "n = 6" | "n = 7"
    | "n = 8" | "n = 9" | "n = 10" | "n = 11" | "n = 12" | "n = 13" | "n = 14" | "n = 15"
    by atomize_elim arith
  then show ?thesis
    by cases (simp_all add: hexDigits_def js_def isUnescaped_def)
qed

lemma escape_safe: "list_all (\<lambda>c. isUnescaped c \<or> c = 0x25) (escape bs)"
  by (induction bs) (simp_all add: escape_def escapeOctet_def hexDigit_unescaped)

lemma encode_safe:
  "encodeURIComponent s = Inr e \<Longrightarrow> list_all (\<lambda>c. isUnescaped c \<or> c = 0x25) e"
proof (induction s arbitrary: e rule: encodeURIComponent.induct)
  case 1
  then show ?case by simp
next
  case (2 c cs)
  show ?case
  proof (cases "isUnescaped c")
    case True
    then show ?thesis
      using "2.prems" "2.IH"(1) by (auto simp: prepend_Inr)
  next
    case False
    then have nl: "\<not> isLow c"
      using "2.prems" by (auto split: if_splits)
    show ?thesis
    proof (cases "isHigh c")
      case True
      then obtain d ds where cs: "cs = d # ds" and d: "isLow d"
        using "2.prems" False nl by (auto split: if_splits list.splits)
      show ?thesis
        using "2.prems" "2.IH"(2) [OF False nl True cs d] False nl True cs d escape_safe
        by (auto simp: prepend_Inr)
    next
      case nh: False
      show ?thesis
        using "2.prems" "2.IH"(3) [OF False nl nh] False nl nh escape_safe
        by (auto simp: prepend_Inr)
    qed
  qed
qed

lemma safe_delims:
  assumes "list_all (\<lambda>c. isUnescaped c \<or> c = 0x25) e"
  shows "0x2F \<notin> set e" "0x3F \<notin> set e" "0x23 \<notin> set e" "0x26 \<notin> set e" "0x3D \<notin> set e"
  using assms by (auto simp: list_all_iff isUnescaped_def)

lemma splitOn_append:
  "sep \<notin> set xs \<Longrightarrow> splitOn sep cur (xs @ ys) = splitOn sep (cur @ xs) ys"
  by (induction xs arbitrary: cur) auto

lemma splitOn_piece:
  "sep \<notin> set xs \<Longrightarrow> splitOn sep cur (xs @ sep # ys) = (cur @ xs) # splitOn sep [] ys"
  by (simp add: splitOn_append)

lemma splitOn_last: "sep \<notin> set xs \<Longrightarrow> splitOn sep cur xs = [cur @ xs]"
  using splitOn_append [of sep xs cur "[]"] by simp

lemma safe_more:
  assumes "list_all (\<lambda>c. isUnescaped c \<or> c = 0x25) e"
  shows "0x5C \<notin> set e" "0x2B \<notin> set e"
  using assms by (auto simp: list_all_iff isUnescaped_def)

lemma splitWhere_append:
  "list_all (\<lambda>c. \<not> isSep c) xs \<Longrightarrow> splitWhere isSep cur (xs @ ys) = splitWhere isSep (cur @ xs) ys"
  by (induction xs arbitrary: cur) auto

lemma splitWhere_piece:
  "list_all (\<lambda>c. \<not> isSep c) xs \<Longrightarrow> isSep c \<Longrightarrow>
   splitWhere isSep cur (xs @ c # ys) = (cur @ xs) # splitWhere isSep [] ys"
  by (simp add: splitWhere_append)

lemma splitWhere_last:
  "list_all (\<lambda>c. \<not> isSep c) xs \<Longrightarrow> splitWhere isSep cur xs = [cur @ xs]"
  using splitWhere_append [of isSep xs cur "[]"] by simp

lemma no_slashes:
  assumes "0x2F \<notin> set xs" "0x5C \<notin> set xs"
  shows "list_all (\<lambda>c. \<not> (c = 0x2F \<or> c = 0x5C)) xs"
  using assms by (auto simp: list_all_iff)

lemma decode_dots:
  "isSingleDot a \<Longrightarrow> decodeURIComponent a = Inr (js ''.'')"
  "isDoubleDot a \<Longrightarrow> decodeURIComponent a = Inr (js ''..'')"
  by (auto simp: isSingleDot_def isDoubleDot_def decodeURIComponent_def decodeItems.simps
      hexValue_def octetCount_def prepend_def js_def)

lemma encoded_not_dot:
  assumes "encodeURIComponent name = Inr a" "name \<noteq> js ''.''" "name \<noteq> js ''..''"
  shows "\<not> isSingleDot a" "\<not> isDoubleDot a"
  using assms decode_encode [OF assms(1)] decode_dots [of a] by auto

lemma pathState_keep:
  assumes "\<not> isSingleDot x" "\<not> isDoubleDot x"
  shows "pathState path (x # rest) = pathState (path @ [x]) rest"
  using assms by simp

lemma pathState_three:
  assumes "\<not> isSingleDot x" "\<not> isDoubleDot x" "\<not> isSingleDot y" "\<not> isDoubleDot y"
    "\<not> isSingleDot z" "\<not> isDoubleDot z"
  shows "pathState [] [x, y, z] = [x, y, z]"
  by (simp add: pathState_keep assms del: pathState.simps(2))


lemma url_query:
  assumes a: "list_all (\<lambda>c. isUnescaped c \<or> c = 0x25) a"
    and m: "list_all (\<lambda>c. isUnescaped c \<or> c = 0x25) m"
    and w: "0x3F \<notin> set w" "0x23 \<notin> set w"
  shows "takeWhile (\<lambda>c. c \<noteq> 0x3F)
           (takeWhile (\<lambda>c. c \<noteq> 0x23) (js ''/activities/'' @ a @ 0x2F # w @ js ''?email='' @ m))
           = 0x2F # js ''activities'' @ 0x2F # a @ 0x2F # w"
    and "queryParams (js ''/activities/'' @ a @ 0x2F # w @ js ''?email='' @ m)
           = [(js ''email'', m)]"
proof -
  let ?u = "js ''/activities/'' @ a @ 0x2F # w @ js ''?email='' @ m"
  let ?p = "0x2F # js ''activities'' @ 0x2F # a @ 0x2F # w"
  have u: "?u = ?p @ 0x3F # js ''email'' @ 0x3D # m"
    by (simp add: js_def)
  have nohash: "0x23 \<notin> set ?u"
    using safe_delims(3) [OF a] safe_delims(3) [OF m] w(2) by (simp add: js_def)
  have noq: "0x3F \<notin> set ?p"
    using safe_delims(2) [OF a] w(1) by (simp add: js_def)
  have t1: "takeWhile (\<lambda>c. c \<noteq> 0x23) ?u = ?u"
    using nohash by (simp only: takeWhile_eq_all_conv) blast
  have t2: "takeWhile (\<lambda>c. c \<noteq> 0x3F) (?p @ 0x3F # js ''email'' @ 0x3D # m) = ?p"
    using noq by (subst takeWhile_tail) (simp, simp only: takeWhile_eq_all_conv, blast)
  have d2: "dropWhile (\<lambda>c. c \<noteq> 0x3F) (?p @ 0x3F # js ''email'' @ 0x3D # m)
      = 0x3F # js ''email'' @ 0x3D # m"
    using noq by (subst dropWhile_append2) auto
  show "takeWhile (\<lambda>c. c \<noteq> 0x3F) (takeWhile (\<lambda>c. c \<noteq> 0x23) ?u) = ?p"
    unfolding t1 unfolding u t2 ..
  have s2: "splitString 0x26 (js ''email'' @ 0x3D # m) = [js ''email'' @ 0x3D # m]"
    using safe_delims(4) [OF m] by (simp add: splitString_def splitOn_last js_def)
  have e1: "takeWhile (\<lambda>c. c \<noteq> 0x3D) (js ''email'' @ 0x3D # m) = js ''email''"
    by (subst takeWhile_tail) (simp_all add: js_def)
  have e2: "dropWhile (\<lambda>c. c \<noteq> 0x3D) (js ''email'' @ 0x3D # m) = 0x3D # m"
    by (subst dropWhile_append2) (auto simp: js_def)
  show "queryParams ?u = [(js ''email'', m)]"
    unfolding queryParams_def t1 unfolding u d2 by (simp add: s2 e1 e2)
qed

lemma safe_plain:
  assumes "list_all (\<lambda>c. isUnescaped c \<or> c = 0x25) e"
  shows "list_all (\<lambda>d. isPathPlain d \<or> d = 0x2F \<or> d = 0x5C) e"
  using assms by (auto simp: list_all_iff isPathPlain_def)

lemma url_path:
  assumes a: "list_all (\<lambda>c. isUnescaped c \<or> c = 0x25) a"
    and m: "list_all (\<lambda>c. isUnescaped c \<or> c = 0x25) m"
    and w: "0x3F \<notin> set w" "0x23 \<notin> set w" "0x2F \<notin> set w" "0x5C \<notin> set w"
    and wd: "\<not> isSingleDot w" "\<not> isDoubleDot w"
    and wp: "list_all (\<lambda>d. isPathPlain d \<or> d = 0x2F \<or> d = 0x5C) w"
    and ad: "\<not> isSingleDot a" "\<not> isDoubleDot a"
  shows "pathSegments (js ''/activities/'' @ a @ 0x2F # w @ js ''?email='' @ m)
           = Some [js ''activities'', a, w]"
proof -
  let ?sep = "\<lambda>c::16 word. c = 0x2F \<or> c = 0x5C"
  let ?p = "js ''activities'' @ 0x2F # a @ 0x2F # w"
  have s0: "list_all (\<lambda>c. \<not> ?sep c) (js ''activities'')"
    by (simp add: js_def)
  have sa: "list_all (\<lambda>c. \<not> ?sep c) a"
    using no_slashes [OF safe_delims(1) [OF a] safe_more(1) [OF a]] .
  have sw: "list_all (\<lambda>c. \<not> ?sep c) w"
    using no_slashes [OF w(3,4)] .
  have sp: "splitWhere ?sep [] ?p = [js ''activities'', a, w]"
    using s0 sa sw by (simp add: splitWhere_piece splitWhere_last)
  have d0: "\<not> isSingleDot (js ''activities'')" "\<not> isDoubleDot (js ''activities'')"
    by (simp_all add: isSingleDot_def isDoubleDot_def js_def)
  have ps: "pathState [] [js ''activities'', a, w] = [js ''activities'', a, w]"
    by (rule pathState_three [OF d0 ad wd])
  have p0: "list_all (\<lambda>d. isPathPlain d \<or> d = 0x2F \<or> d = 0x5C) (js ''activities'')"
    by (simp add: js_def isPathPlain_def isUnescaped_def)
  have pl: "list_all (\<lambda>d. isPathPlain d \<or> d = 0x2F \<or> d = 0x5C) ?p"
    using p0 safe_plain [OF a] wp by simp
  have t1: "take 1 ?p \<noteq> [0x2F]" "take 1 ?p \<noteq> [0x5C]"
    by (simp_all add: js_def)
  show ?thesis
    unfolding pathSegments_def url_query(1) [OF a m w(1,2)]
    using pl t1 by (simp add: sp ps del: pathState.simps)
qed

lemma no_request_signup:
  "signupUrl activity email = Inl e \<Longrightarrow>
   requests (signupSubmit up num email activity fetched listed s) = requests s"
  by (simp add: handler_defs)

lemma no_request_delete:
  "unregisterUrl activity participant = Inl e \<Longrightarrow>
   requests (deleteClick up num participant activity fetched listed s) = requests s"
  by (simp add: handler_defs)

lemma suffix_words:
  "0x3F \<notin> set (js ''signup'')" "0x23 \<notin> set (js ''signup'')" "0x2F \<notin> set (js ''signup'')"
  "0x5C \<notin> set (js ''signup'')" "\<not> isSingleDot (js ''signup'')" "\<not> isDoubleDot (js ''signup'')"
  "list_all (\<lambda>d. isPathPlain d \<or> d = 0x2F \<or> d = 0x5C) (js ''signup'')"
  "0x3F \<notin> set (js ''unregister'')" "0x23 \<notin> set (js ''unregister'')"
  "0x2F \<notin> set (js ''unregister'')" "0x5C \<notin> set (js ''unregister'')"
  "\<not> isSingleDot (js ''unregister'')" "\<not> isDoubleDot (js ''unregister'')"
  "list_all (\<lambda>d. isPathPlain d \<or> d = 0x2F \<or> d = 0x5C) (js ''unregister'')"
  by (simp_all add: isSingleDot_def isDoubleDot_def isPathPlain_def isUnescaped_def js_def)

text \<open>
  Claim C10, amended. For every activity name and participant identifier that are
  well-formed strings (no surrogate without its partner), the signup and the unregister
  URL are the templates filled with their \<open>encodeURIComponent\<close> forms. The form of the
  name decodes to the name, and the one query parameter of the URL, \<open>email\<close>, has a
  value that decodes to the identifier, whatever characters they hold, \<open>/\<close>, \<open>?\<close>, \<open>&\<close>,
  \<open>#\<close> and \<open>@\<close> included. For every name but \<open>.\<close> and \<open>..\<close> the path that the URL parser
  makes of the URL has the form of the name as its second segment. For a name or an
  identifier that is not well-formed \<open>encodeURIComponent\<close> throws a URIError: there is no
  URL, and the handler sends no request.
\<close>

theorem url_round_trip:
  "if isWellFormed name \<and> isWellFormed ident
   then (\<exists>a m. encodeURIComponent name = Inr a \<and> encodeURIComponent ident = Inr m
           \<and> signupUrl name ident = Inr (js ''/activities/'' @ a @ js ''/signup?email='' @ m)
           \<and> unregisterUrl name ident = Inr (js ''/activities/'' @ a @ js ''/unregister?email='' @ m)
           \<and> decodeURIComponent a = Inr name
           \<and> queryParams (js ''/activities/'' @ a @ js ''/signup?email='' @ m) = [(js ''email'', m)]
           \<and> queryParams (js ''/activities/'' @ a @ js ''/unregister?email='' @ m) = [(js ''email'', m)]
           \<and> decodeURIComponent m = Inr ident
           \<and> (name \<noteq> js ''.'' \<and> name \<noteq> js ''..'' \<longrightarrow>
                pathSegments (js ''/activities/'' @ a @ js ''/signup?email='' @ m)
                  = Some [js ''activities'', a, js ''signup'']
              \<and> pathSegments (js ''/activities/'' @ a @ js ''/unregister?email='' @ m)
                  = Some [js ''activities'', a, js ''unregister'']))
   else signupUrl name ident = Inl URIError \<and> unregisterUrl name ident = Inl URIError
      \<and> requests (signupSubmit up num ident name fetched listed s) = requests s
      \<and> requests (deleteClick up num ident name fetched listed s) = requests s"
proof (cases "isWellFormed name \<and> isWellFormed ident")
  case True
  then obtain a m where n: "encodeURIComponent name = Inr a" and i: "encodeURIComponent ident = Inr m"
    using encode_wellFormed by blast
  note sa = encode_safe [OF n]
  note sm = encode_safe [OF i]
  have su: "js ''/activities/'' @ a @ js ''/signup?email='' @ m
      = js ''/activities/'' @ a @ 0x2F # js ''signup'' @ js ''?email='' @ m"
    by (simp add: js_def)
  have un: "js ''/activities/'' @ a @ js ''/unregister?email='' @ m
      = js ''/activities/'' @ a @ 0x2F # js ''unregister'' @ js ''?email='' @ m"
    by (simp add: js_def)
  have s: "signupUrl name ident = Inr (js ''/activities/'' @ a @ js ''/signup?email='' @ m)"
    by (simp add: signupUrl_def n i)
  have u: "unregisterUrl name ident = Inr (js ''/activities/'' @ a @ js ''/unregister?email='' @ m)"
    by (simp add: unregisterUrl_def n i)
  have q1: "queryParams (js ''/activities/'' @ a @ js ''/signup?email='' @ m) = [(js ''email'', m)]"
    unfolding su by (rule url_query(2) [OF sa sm suffix_words(1,2)])
  have q2: "queryParams (js ''/activities/'' @ a @ js ''/unregister?email='' @ m) = [(js ''email'', m)]"
    unfolding un by (rule url_query(2) [OF sa sm suffix_words(8,9)])
  have p: "pathSegments (js ''/activities/'' @ a @ js ''/signup?email='' @ m)
        = Some [js ''activities'', a, js ''signup'']
      \<and> pathSegments (js ''/activities/'' @ a @ js ''/unregister?email='' @ m)
        = Some [js ''activities'', a, js ''unregister'']"
    if d: "name \<noteq> js ''.''" "name \<noteq> js ''..''"
    unfolding su un
    using url_path [OF sa sm suffix_words(1,2,3,4,5,6,7) encoded_not_dot [OF n d]]
      url_path [OF sa sm suffix_words(8,9,10,11,12,13,14) encoded_not_dot [OF n d]]
    by (rule conjI)
  show ?thesis
    using True n i s u q1 q2 p decode_encode [OF n] decode_encode [OF i] by auto
next
  case False
  then obtain x where "encodeURIComponent name = Inl x \<or> encodeURIComponent ident = Inl x"
    using encode_wellFormed [of name] encode_wellFormed [of ident]
    by (metis old.sum.exhaust)
  then have e: "signupUrl name ident = Inl URIError" "unregisterUrl name ident = Inl URIError"
    using encode_error [of name] encode_error [of ident]
    by (auto simp: signupUrl_def unregisterUrl_def split: sum.splits)
  show ?thesis
    using False e no_request_signup [OF e(1), of up num fetched listed s]
      no_request_delete [OF e(2), of up num fetched listed s] by simp
qed

theorem url_round_trip_witness:
  "isWellFormed (js ''a/b?c&d#e'') \<and> isWellFormed (js ''x+y@z.com'')
   \<and> encodeURIComponent (js ''a/b?c&d#e'') = Inr (js ''a%2Fb%3Fc%26d%23e'')
   \<and> encodeURIComponent (js ''x+y@z.com'') = Inr (js ''x%2By%40z.com'')
   \<and> js ''a/b?c&d#e'' \<noteq> js ''.'' \<and> js ''a/b?c&d#e'' \<noteq> js ''..''
   \<and> signupUrl (js ''a/b?c&d#e'') (js ''x+y@z.com'')
       = Inr (js ''/activities/'' @ js ''a%2Fb%3Fc%26d%23e'' @ js ''/signup?email='' @ js ''x%2By%40z.com'')
   \<and> pathSegments (js ''/activities/'' @ js ''a%2Fb%3Fc%26d%23e'' @ js ''/signup?email='' @ js ''x%2By%40z.com'')
       = Some [js ''activities'', js ''a%2Fb%3Fc%26d%23e'', js ''signup'']
   \<and> queryParams (js ''/activities/'' @ js ''a%2Fb%3Fc%26d%23e'' @ js ''/signup?email='' @ js ''x%2By%40z.com'')
       = [(js ''email'', js ''x%2By%40z.com'')]
   \<and> decodeURIComponent (js ''a%2Fb%3Fc%26d%23e'') = Inr (js ''a/b?c&d#e'')
   \<and> decodeURIComponent (js ''x%2By%40z.com'') = Inr (js ''x+y@z.com'')
   \<and> \<not> isWellFormed [0xD83D]
   \<and> signupUrl [0xD83D] (js ''x+y@z.com'') = Inl URIError
   \<and> requests (signupSubmit toUpperCaseLatin1 safeIntegers (js ''x+y@z.com'') [0xD83D]
         (Inr signedUp) (Inr sampleListing) page0) = requests page0"
proof -
  have w: "isWellFormed (js ''a/b?c&d#e'')" "isWellFormed (js ''x+y@z.com'')"
    by (simp_all add: js_def isHigh_def isLow_def)
  have e: "encodeURIComponent (js ''a/b?c&d#e'') = Inr (js ''a%2Fb%3Fc%26d%23e'')"
      "encodeURIComponent (js ''x+y@z.com'') = Inr (js ''x%2By%40z.com'')"
    by (simp_all add: eval_defs)
  have d: "js ''a/b?c&d#e'' \<noteq> js ''.''" "js ''a/b?c&d#e'' \<noteq> js ''..''"
    by (simp_all add: js_def)
  have n: "\<not> isWellFormed [0xD83D]"
    by (simp add: isHigh_def isLow_def)
  have one: "signupUrl (js ''a/b?c&d#e'') (js ''x+y@z.com'')
       = Inr (js ''/activities/'' @ js ''a%2Fb%3Fc%26d%23e'' @ js ''/signup?email='' @ js ''x%2By%40z.com'')
   \<and> pathSegments (js ''/activities/'' @ js ''a%2Fb%3Fc%26d%23e'' @ js ''/signup?email='' @ js ''x%2By%40z.com'')
       = Some [js ''activities'', js ''a%2Fb%3Fc%26d%23e'', js ''signup'']
   \<and> queryParams (js ''/activities/'' @ js ''a%2Fb%3Fc%26d%23e'' @ js ''/signup?email='' @ js ''x%2By%40z.com'')
       = [(js ''email'', js ''x%2By%40z.com'')]
   \<and> decodeURIComponent (js ''a%2Fb%3Fc%26d%23e'') = Inr (js ''a/b?c&d#e'')
   \<and> decodeURIComponent (js ''x%2By%40z.com'') = Inr (js ''x+y@z.com'')"
    using url_round_trip [of "js ''a/b?c&d#e''" "js ''x+y@z.com''"] w e d by auto
  have two: "signupUrl [0xD83D] (js ''x+y@z.com'') = Inl URIError
   \<and> requests (signupSubmit toUpperCaseLatin1 safeIntegers (js ''x+y@z.com'') [0xD83D]
         (Inr signedUp) (Inr sampleListing) page0) = requests page0"
    using url_round_trip [of "[0xD83D]" "js ''x+y@z.com''" toUpperCaseLatin1 safeIntegers
        "Inr signedUp" "Inr sampleListing" page0] n by auto
  show ?thesis
    using w e d n one two by blast
qed

text \<open>
  A name that is one dot is a well-formed string and has a URL, but the parser drops
  its segment: the request goes to the path of no activity.
\<close>

lemma dot_name_dropped:
  "signupUrl (js ''.'') (js ''a@x.com'') = Inr (js ''/activities/./signup?email=a%40x.com'')"
  "pathSegments (js ''/activities/./signup?email=a%40x.com'') = Some [js ''activities'', js ''signup'']"
  "unregisterUrl (js ''..'') (js ''a@x.com'') = Inr (js ''/activities/../unregister?email=a%40x.com'')"
  "pathSegments (js ''/activities/../unregister?email=a%40x.com'') = Some [js ''unregister'']"
  by (simp_all add: eval_defs pathSegments_def isPathPlain_def isSingleDot_def isDoubleDot_def)

text \<open>
  Claim C10, as stated, is about every name and identifier. A name that is one high
  surrogate (a string JSON can carry) has no URL: building it throws, and the delete
  handler sends no request.
\<close>

theorem url_round_trip_counterexample:
  "\<not> isWellFormed [0xD83D]
   \<and> signupUrl [0xD83D] (js ''a@x.com'') = Inl URIError
   \<and> unregisterUrl [0xD83D] (js ''a@x.com'') = Inl URIError
   \<and> requests (deleteClick toUpperCaseLatin1 safeIntegers (js ''a@x.com'') [0xD83D]
        (Inr signedUp) (Inr sampleListing) page0) = []"
  by (simp add: handler_defs eval_defs)

end
